theory Spec2Isabelle
  imports Main
begin

section \<open>FileSystemStore and SingleFileStore (storage/FileSystemStore.ts)\<close>

text \<open>
  The stores run on a single-threaded event loop. Every \<open>await\<close> on the vault adapter
  is a point where other calls can run, so an asynchronous method is modelled by the
  part that runs when it is called and the part that runs when the adapter settles.
  The adapter (the disk) belongs to the host: what it answers is an input of the model.
\<close>

datatype storage_error = StorageError string string
  \<comment> \<open>message, path\<close>

datatype read_outcome = FileMissing | FileContent string | AdapterFails
  \<comment> \<open>\<open>adapter.exists\<close> answers false; \<open>adapter.read\<close> answers a text; either of them rejects\<close>

text \<open>
  What a concrete store supplies: its file, the hooks \<open>validate\<close> and
  \<open>getDefaultValue\<close>, and how a text parses into its data type (\<open>JSON.parse\<close>,
  \<open>None\<close> where it throws).
\<close>

record 'a store_hooks =
  filePath :: string
  validate :: "'a \<Rightarrow> bool"
  getDefaultValue :: 'a
  JSON_parse :: "string \<Rightarrow> 'a option"

text \<open>
  Modelled from the spec: \<open>safeJsonParse\<close> of utils/errorUtils is not among the sources.
  \<open>readJson\<close> hands it the file's text and the fallback; on text that does not parse it
  gives the fallback back instead of raising.
\<close>

definition safeJsonParse :: "'a store_hooks \<Rightarrow> string \<Rightarrow> 'a \<Rightarrow> 'a" where
  "safeJsonParse h content fallback =
     (case JSON_parse h content of None \<Rightarrow> fallback | Some d \<Rightarrow> d)"

definition readJson :: "'a store_hooks \<Rightarrow> string \<Rightarrow> 'a \<Rightarrow> read_outcome \<Rightarrow> storage_error + 'a" where
  "readJson h path fallback outcome =
     (case outcome of
        FileMissing \<Rightarrow> Inr fallback
      | FileContent content \<Rightarrow> Inr (safeJsonParse h content fallback)
      | AdapterFails \<Rightarrow> Inl (StorageError (''Failed to read file '' @ path) path))"

datatype write_origin = DebouncedWrite | FlushWrite
  \<comment> \<open>which caller awaits a \<open>writeJson\<close>: the debounce timer's callback, or \<open>flush\<close>\<close>

text \<open>
  The fields of a SingleFileStore, and what the host has seen of it: the clock
  (\<open>Date.now()\<close>), the number of disk reads started, the payloads handed to
  \<open>adapter.write\<close> in order (the text written is \<open>JSON.stringify\<close> of the payload),
  and the writes that have not settled yet.

  \<open>saveDebounceTimer\<close> holds the pending timer's deadline. \<open>loadPromise\<close> holds the
  in-flight \<open>performLoad\<close>: its serial number, which identifies the promise, and the
  timestamp it was called with.

  The type parameter is an object type in every store of the repository (settings,
  subscriptions, progress). A JavaScript object is truthy, so the test \<open>this.cache\<close> of
  \<open>flush\<close> and of the timer is the test \<open>cache \<noteq> None\<close>.
\<close>

record 'a single_file_store =
  cache :: "'a option"
  cacheTimestamp :: int
  isDirty :: bool
  saveDebounceTimer :: "int option"
  loadPromise :: "(nat \<times> int) option"
  clock :: int
  diskReads :: nat
  diskWrites :: "'a list"
  writesInFlight :: "write_origin list"

definition CACHE_TTL_MS :: int where
  "CACHE_TTL_MS = 2000"

definition SAVE_DEBOUNCE_MS :: int where
  "SAVE_DEBOUNCE_MS = 1000"

definition new_store :: "int \<Rightarrow> 'a single_file_store" where
  "new_store t = \<lparr> cache = None, cacheTimestamp = 0, isDirty = False,
     saveDebounceTimer = None, loadPromise = None, clock = t,
     diskReads = 0, diskWrites = [], writesInFlight = [] \<rparr>"

subsection \<open>load\<close>

datatype 'a load_result = Ready 'a | Awaits nat
  \<comment> \<open>the value, or the promise of the disk read with that serial number\<close>

definition load :: "'a single_file_store \<Rightarrow> 'a load_result \<times> 'a single_file_store" where
  "load s =
     (case loadPromise s of
        Some (p, t) \<Rightarrow> (Awaits p, s)
      | None \<Rightarrow>
          (if cache s \<noteq> None \<and> clock s - cacheTimestamp s < CACHE_TTL_MS
           then (Ready (the (cache s)), s)
           else (Awaits (diskReads s),
                 s\<lparr> loadPromise := Some (diskReads s, clock s),
                    diskReads := Suc (diskReads s) \<rparr>)))"

definition performLoad ::
  "'a store_hooks \<Rightarrow> int \<Rightarrow> read_outcome \<Rightarrow> 'a single_file_store
    \<Rightarrow> (storage_error + 'a) \<times> 'a single_file_store" where
  "performLoad h timestamp outcome s =
     (case readJson h (filePath h) (getDefaultValue h) outcome of
        Inl e \<Rightarrow> (Inl e, s)
      | Inr d \<Rightarrow>
          (if \<not> validate h d then (Inr (getDefaultValue h), s)
           else (Inr d, s\<lparr> cache := Some d, cacheTimestamp := timestamp \<rparr>)))"

text \<open>
  The adapter settles the read: \<open>performLoad\<close> runs to its end and \<open>load\<close>'s
  \<open>finally\<close> clears the slot. The result goes to every caller that awaits the promise.
\<close>

definition readSettles ::
  "'a store_hooks \<Rightarrow> read_outcome \<Rightarrow> 'a single_file_store
    \<Rightarrow> (nat \<times> (storage_error + 'a)) option \<times> 'a single_file_store" where
  "readSettles h outcome s =
     (case loadPromise s of
        None \<Rightarrow> (None, s)
      | Some (p, t) \<Rightarrow>
          (case performLoad h t outcome s of
             (r, s') \<Rightarrow> (Some (p, r), s'\<lparr> loadPromise := None \<rparr>)))"

subsection \<open>save, the debounce timer, flush\<close>

datatype call_result = Threw storage_error | Returned | AwaitsWrite
  \<comment> \<open>\<open>AwaitsWrite\<close>: the call settles when the write it started settles\<close>

definition writeJson :: "write_origin \<Rightarrow> 'a \<Rightarrow> 'a single_file_store \<Rightarrow> 'a single_file_store" where
  "writeJson origin d s =
     s\<lparr> diskWrites := diskWrites s @ [d], writesInFlight := writesInFlight s @ [origin] \<rparr>"

definition flush :: "'a single_file_store \<Rightarrow> call_result \<times> 'a single_file_store" where
  "flush s =
     (let s1 = s\<lparr> saveDebounceTimer := None \<rparr>
      in if isDirty s1 \<and> cache s1 \<noteq> None
         then (AwaitsWrite, writeJson FlushWrite (the (cache s1)) s1)
         else (Returned, s1))"

definition scheduleDebouncedSave :: "'a single_file_store \<Rightarrow> 'a single_file_store" where
  "scheduleDebouncedSave s = s\<lparr> saveDebounceTimer := Some (clock s + SAVE_DEBOUNCE_MS) \<rparr>"

definition save ::
  "'a store_hooks \<Rightarrow> 'a \<Rightarrow> bool \<Rightarrow> 'a single_file_store \<Rightarrow> call_result \<times> 'a single_file_store" where
  "save h d immediate s =
     (if \<not> validate h d
      then (Threw (StorageError ''Data validation failed'' (filePath h)), s)
      else
        (let s1 = s\<lparr> cache := Some d, cacheTimestamp := clock s, isDirty := True \<rparr>
         in if immediate then flush s1 else (Returned, scheduleDebouncedSave s1)))"

text \<open>The callback of \<open>setTimeout\<close> in \<open>scheduleDebouncedSave\<close>, up to its \<open>await\<close>.\<close>

definition timerCallback :: "'a single_file_store \<Rightarrow> 'a single_file_store" where
  "timerCallback s =
     (let s1 = s\<lparr> saveDebounceTimer := None \<rparr>
      in if isDirty s1 \<and> cache s1 \<noteq> None
         then writeJson DebouncedWrite (the (cache s1)) s1
         else s1)"

text \<open>
  The adapter settles the oldest write. Both awaiting callers do the same on success
  (\<open>this.isDirty = false\<close>); on failure \<open>flush\<close> raises a StorageError to its caller and
  the timer's callback logs and swallows it.
\<close>

definition writeSettles ::
  "'a store_hooks \<Rightarrow> bool \<Rightarrow> 'a single_file_store \<Rightarrow> storage_error option \<times> 'a single_file_store" where
  "writeSettles h ok s =
     (case writesInFlight s of
        [] \<Rightarrow> (None, s)
      | origin # rest \<Rightarrow>
          (if ok then (None, s\<lparr> writesInFlight := rest, isDirty := False \<rparr>)
           else (case origin of
                   FlushWrite \<Rightarrow>
                     (Some (StorageError (''Failed to write file '' @ filePath h) (filePath h)),
                      s\<lparr> writesInFlight := rest \<rparr>)
                 | DebouncedWrite \<Rightarrow> (None, s\<lparr> writesInFlight := rest \<rparr>))))"

definition invalidateCache :: "'a single_file_store \<Rightarrow> 'a single_file_store" where
  "invalidateCache s = s\<lparr> cache := None, cacheTimestamp := 0 \<rparr>"

definition hasPendingChanges :: "'a single_file_store \<Rightarrow> bool" where
  "hasPendingChanges s = isDirty s"

text \<open>
  Time passes with the event loop idle: a timer whose deadline is reached runs its
  callback (which schedules no other timer), and the clock moves on.
\<close>

definition elapse :: "nat \<Rightarrow> 'a single_file_store \<Rightarrow> 'a single_file_store" where
  "elapse dt s =
     (let s1 = (case saveDebounceTimer s of
                  None \<Rightarrow> s
                | Some deadline \<Rightarrow> if deadline \<le> clock s + int dt then timerCallback s else s)
      in s1\<lparr> clock := clock s + int dt \<rparr>)"

subsection \<open>Runs of a store\<close>

datatype 'a event =
    CallLoad
  | ReadSettles read_outcome
  | CallSave 'a bool
  | CallFlush
  | CallInvalidateCache
  | WriteSettles bool
  | Elapse nat

fun step :: "'a store_hooks \<Rightarrow> 'a event \<Rightarrow> 'a single_file_store \<Rightarrow> 'a single_file_store" where
  "step h CallLoad s = snd (load s)"
| "step h (ReadSettles outcome) s = snd (readSettles h outcome s)"
| "step h (CallSave d immediate) s = snd (save h d immediate s)"
| "step h CallFlush s = snd (flush s)"
| "step h CallInvalidateCache s = invalidateCache s"
| "step h (WriteSettles ok) s = snd (writeSettles h ok s)"
| "step h (Elapse dt) s = elapse dt s"

fun run :: "'a store_hooks \<Rightarrow> 'a event list \<Rightarrow> 'a single_file_store \<Rightarrow> 'a single_file_store" where
  "run h [] s = s"
| "run h (e # es) s = run h es (step h e s)"

text \<open>Predicates and measures on runs.\<close>

fun is_ReadSettles :: "'a event \<Rightarrow> bool" where
  "is_ReadSettles (ReadSettles outcome) = True"
| "is_ReadSettles e = False"

fun elapsed :: "'a event list \<Rightarrow> int" where
  "elapsed [] = 0"
| "elapsed (Elapse dt # es) = int dt + elapsed es"
| "elapsed (e # es) = elapsed es"

fun keeps_cache :: "'a event \<Rightarrow> bool" where
  "keeps_cache (CallSave d immediate) = False"
| "keeps_cache CallInvalidateCache = False"
| "keeps_cache e = True"

text \<open>
  Debounced saves in a row: each payload comes with the time that passes, with nothing
  else happening, before the next call.
\<close>

fun debounced_saves :: "('a \<times> nat) list \<Rightarrow> 'a event list" where
  "debounced_saves [] = []"
| "debounced_saves ((d, gap) # rest) = CallSave d False # Elapse gap # debounced_saves rest"

section \<open>SettingsStore (storage/SettingsStore.ts)\<close>

text \<open>
  Settings are JSON values as \<open>JSON.parse\<close> builds them. An object keeps its
  properties in insertion order, which is the order \<open>JSON.stringify\<close> prints them
  in, so an object is a list of properties. The number type is a parameter:
  the store copies and compares numbers and never computes with them.
\<close>

datatype 'n json =
    JNull
  | JBool bool
  | JNum 'n
  | JStr string
  | JArr "'n json list"
  | JObj "(string \<times> 'n json) list"

text \<open>\<open>obj.k\<close>: \<open>None\<close> is \<open>undefined\<close>.\<close>

definition getProp :: "'n json \<Rightarrow> string \<Rightarrow> 'n json option" where
  "getProp j k = (case j of JObj ps \<Rightarrow> map_of ps k | _ \<Rightarrow> None)"

definition falsy :: "('n::zero) json option \<Rightarrow> bool" where
  "falsy v =
     (case v of
        None \<Rightarrow> True
      | Some JNull \<Rightarrow> True
      | Some (JBool b) \<Rightarrow> \<not> b
      | Some (JNum n) \<Rightarrow> n = 0
      | Some (JStr s) \<Rightarrow> s = []
      | Some _ \<Rightarrow> False)"

datatype js_type = T_undefined | T_object | T_boolean | T_number | T_string

definition typeof :: "'n json option \<Rightarrow> js_type" where
  "typeof v =
     (case v of
        None \<Rightarrow> T_undefined
      | Some (JBool b) \<Rightarrow> T_boolean
      | Some (JNum n) \<Rightarrow> T_number
      | Some (JStr s) \<Rightarrow> T_string
      | Some _ \<Rightarrow> T_object)"

definition negative :: "('n::{zero,ord}) json option \<Rightarrow> bool" where
  "negative v = (case v of Some (JNum n) \<Rightarrow> n < 0 | _ \<Rightarrow> False)"

definition SettingsStore_validate :: "('n::{zero,ord}) json \<Rightarrow> bool" where
  "SettingsStore_validate data =
     (if falsy (Some data) \<or> typeof (Some data) \<noteq> T_object then False
      else if typeof (getProp data ''dataFolderPath'') \<noteq> T_string then False
      else if falsy (getProp data ''defaultPlaybackSettings'')
              \<or> typeof (getProp data ''defaultPlaybackSettings'') \<noteq> T_object then False
      else
        (let playbackSettings = the (getProp data ''defaultPlaybackSettings'')
         in if typeof (getProp playbackSettings ''volume'') \<noteq> T_number
               \<or> typeof (getProp playbackSettings ''playbackSpeed'') \<noteq> T_number
               \<or> typeof (getProp playbackSettings ''skipIntroSeconds'') \<noteq> T_number then False
            else if typeof (getProp data ''autoDownload'') \<noteq> T_boolean then False
            else if typeof (getProp data ''enableNotifications'') \<noteq> T_boolean then False
            else if typeof (getProp data ''maxCacheEpisodes'') \<noteq> T_number
                    \<or> negative (getProp data ''maxCacheEpisodes'') then False
            else if typeof (getProp data ''feedUpdateInterval'') \<noteq> T_number
                    \<or> negative (getProp data ''feedUpdateInterval'') then False
            else True))"

subsection \<open>Object spread\<close>

text \<open>
  An object lists its own properties in JavaScript's order: the keys that are array
  indices (canonical decimal numerals below \<open>2^32 - 1\<close>) first, in ascending numeric
  order, then the other keys in the order they were created. Assigning a property keeps
  the position of a key the object already has; a new key goes to its place among the
  array indices, or to the end.
\<close>

definition is_digit :: "char \<Rightarrow> bool" where
  "is_digit c = (48 \<le> (of_char c :: nat) \<and> (of_char c :: nat) \<le> 57)"

definition digits_value :: "string \<Rightarrow> nat" where
  "digits_value k = foldl (\<lambda>n c. 10 * n + (of_char c - 48)) 0 k"

definition array_index :: "string \<Rightarrow> nat option" where
  "array_index k =
     (if k \<noteq> [] \<and> list_all is_digit k \<and> (k = ''0'' \<or> hd k \<noteq> CHR ''0'')
         \<and> digits_value k < 4294967295
      then Some (digits_value k) else None)"

text \<open>Whether a new key \<open>k\<close> is listed before the key \<open>k'\<close> of an existing property.\<close>

definition precedes :: "string \<Rightarrow> string \<Rightarrow> bool" where
  "precedes k k' =
     (case array_index k of
        None \<Rightarrow> False
      | Some i \<Rightarrow> (case array_index k' of None \<Rightarrow> True | Some j \<Rightarrow> i < j))"

fun setProp :: "string \<Rightarrow> 'v \<Rightarrow> (string \<times> 'v) list \<Rightarrow> (string \<times> 'v) list" where
  "setProp k v [] = [(k, v)]"
| "setProp k v (p # ps) =
     (if fst p = k then (k, v) # ps
      else if precedes k (fst p) then (k, v) # p # ps
      else p # setProp k v ps)"

text \<open>A list of keys in JavaScript's order: array indices ascending, then the rest.\<close>

fun js_ordered :: "string list \<Rightarrow> bool" where
  "js_ordered (k # k' # ks) = ((array_index k' = None \<or> precedes k k') \<and> js_ordered (k' # ks))"
| "js_ordered ks = True"

fun spreadInto :: "(string \<times> 'v) list \<Rightarrow> (string \<times> 'v) list \<Rightarrow> (string \<times> 'v) list" where
  "spreadInto acc [] = acc"
| "spreadInto acc (p # ps) = spreadInto (setProp (fst p) (snd p) acc) ps"

fun show_nat :: "nat \<Rightarrow> string" where
  "show_nat n =
     (if n < 10 then [''0123456789'' ! n]
      else show_nat (n div 10) @ [''0123456789'' ! (n mod 10)])"

text \<open>
  The own enumerable properties that \<open>...x\<close> copies: those of an object, the indexed
  elements of an array or a string, none of \<open>undefined\<close>, \<open>null\<close>, a boolean or a number.
\<close>

definition ownProps :: "'n json option \<Rightarrow> (string \<times> 'n json) list" where
  "ownProps v =
     (case v of
        Some (JObj ps) \<Rightarrow> ps
      | Some (JArr xs) \<Rightarrow> zip (map show_nat [0..<length xs]) xs
      | Some (JStr cs) \<Rightarrow> zip (map show_nat [0..<length cs]) (map (\<lambda>c. JStr [c]) cs)
      | _ \<Rightarrow> [])"

definition SettingsStore_getDefaultValue :: "'n json \<Rightarrow> 'n json" where
  "SettingsStore_getDefaultValue defaults =
     JObj (spreadInto [] (ownProps (Some defaults)))"

text \<open>The object literal of \<open>loadWithMigration\<close>; \<open>DEFAULT_SETTINGS\<close> (model) is the parameter \<open>defaults\<close>.\<close>

definition migratedSettings :: "'n json \<Rightarrow> 'n json \<Rightarrow> 'n json" where
  "migratedSettings defaults settings =
     JObj (setProp ''defaultPlaybackSettings''
            (JObj (spreadInto
                     (spreadInto [] (ownProps (getProp defaults ''defaultPlaybackSettings'')))
                     (ownProps (getProp settings ''defaultPlaybackSettings''))))
            (spreadInto
               (spreadInto [] (ownProps (Some (SettingsStore_getDefaultValue defaults))))
               (ownProps (Some settings))))"

subsection \<open>JSON.stringify\<close>

fun intercalate :: "string \<Rightarrow> string list \<Rightarrow> string" where
  "intercalate sep [] = []"
| "intercalate sep [x] = x"
| "intercalate sep (x # y # ys) = x @ sep @ intercalate sep (y # ys)"

text \<open>
  A string in quotes as \<open>JSON.stringify\<close> prints it: the quote, the backslash and the
  control characters escaped.
\<close>

definition hex_digit :: "nat \<Rightarrow> char" where
  "hex_digit n = ''0123456789abcdef'' ! (n mod 16)"

definition escape_char :: "char \<Rightarrow> string" where
  "escape_char c =
     (if c = CHR 0x22 then [CHR 0x5C, CHR 0x22]
      else if c = CHR 0x5C then [CHR 0x5C, CHR 0x5C]
      else if c = CHR 0x08 then [CHR 0x5C, CHR ''b'']
      else if c = CHR 0x0C then [CHR 0x5C, CHR ''f'']
      else if c = CHR 0x0A then [CHR 0x5C, CHR ''n'']
      else if c = CHR 0x0D then [CHR 0x5C, CHR ''r'']
      else if c = CHR 0x09 then [CHR 0x5C, CHR ''t'']
      else if (of_char c :: nat) < 32
      then [CHR 0x5C, CHR ''u'', CHR ''0'', CHR ''0'',
            hex_digit ((of_char c :: nat) div 16), hex_digit (of_char c :: nat)]
      else [c])"

definition quote :: "string \<Rightarrow> string" where
  "quote s = [CHR 0x22] @ concat (map escape_char s) @ [CHR 0x22]"

text \<open>
  \<open>JSON.stringify\<close> with no indentation, on the values \<open>JSON.parse\<close> can build;
  \<open>num_text\<close> prints a number.
\<close>

fun JSON_stringify :: "('n \<Rightarrow> string) \<Rightarrow> 'n json \<Rightarrow> string" where
  "JSON_stringify num_text JNull = ''null''"
| "JSON_stringify num_text (JBool b) = (if b then ''true'' else ''false'')"
| "JSON_stringify num_text (JNum n) = num_text n"
| "JSON_stringify num_text (JStr s) = quote s"
| "JSON_stringify num_text (JArr xs) =
     ''['' @ intercalate '','' (map (JSON_stringify num_text) xs) @ '']''"
| "JSON_stringify num_text (JObj ps) =
     ''{'' @ intercalate '',''
               (map (\<lambda>p. quote (fst p) @ '':'' @ JSON_stringify num_text (snd p)) ps) @ ''}''"

definition show_int :: "int \<Rightarrow> string" where
  "show_int i = (if i < 0 then ''-'' @ show_nat (nat (- i)) else show_nat (nat i))"

subsection \<open>The settings store\<close>

definition SettingsStore ::
  "string \<Rightarrow> (string \<Rightarrow> ('n::{zero,ord}) json option) \<Rightarrow> 'n json \<Rightarrow> 'n json store_hooks" where
  "SettingsStore path parse defaults =
     \<lparr> filePath = path, validate = SettingsStore_validate,
       getDefaultValue = SettingsStore_getDefaultValue defaults,
       JSON_parse = parse \<rparr>"

text \<open>
  \<open>loadWithMigration\<close> awaits \<open>load\<close>; this is what it does once \<open>load\<close> has given
  it \<open>settings\<close>. Its \<open>save\<close> is a debounced one.
\<close>

definition loadWithMigration ::
  "string \<Rightarrow> (string \<Rightarrow> ('n::{zero,ord}) json option) \<Rightarrow> 'n json \<Rightarrow> ('n \<Rightarrow> string)
    \<Rightarrow> 'n json \<Rightarrow> 'n json single_file_store
    \<Rightarrow> (storage_error + 'n json) \<times> 'n json single_file_store" where
  "loadWithMigration path parse defaults num_text settings s =
     (let migrated = migratedSettings defaults settings
      in if JSON_stringify num_text settings \<noteq> JSON_stringify num_text migrated
         then (case save (SettingsStore path parse defaults) migrated False s of
                 (Threw e, s') \<Rightarrow> (Inl e, s')
               | (_, s') \<Rightarrow> (Inr migrated, s'))
         else (Inr migrated, s))"

text \<open>
  Modelled from the spec: \<open>DEFAULT_SETTINGS\<close> of the model module is not among the
  sources. The data model lists the fields of PluginSettings in this order; the tests of
  the store expect \<open>skipOutroSeconds\<close> to default to 0. The other values are examples.
\<close>

definition DEFAULT_SETTINGS :: "int json" where
  "DEFAULT_SETTINGS =
     JObj [(''dataFolderPath'', JStr ''podcasts''),
           (''defaultPlaybackSettings'',
              JObj [(''volume'', JNum 1), (''playbackSpeed'', JNum 1),
                    (''skipIntroSeconds'', JNum 0), (''skipOutroSeconds'', JNum 0)]),
           (''autoDownload'', JBool False),
           (''maxCacheEpisodes'', JNum 50),
           (''feedUpdateInterval'', JNum 3600000),
           (''enableNotifications'', JBool True)]"

text \<open>
  \<open>Object.keys\<close>; a settings object as \<open>JSON.parse\<close> builds it (no key twice and the
  keys in JavaScript's order, at the top and in its playback settings, which are an
  object); and settings that list every field of the defaults first and in the defaults'
  order, at both levels.
\<close>

definition object_keys :: "'n json option \<Rightarrow> string list" where
  "object_keys v = map fst (ownProps v)"

definition settings_object :: "'n json \<Rightarrow> bool" where
  "settings_object j =
     (case j of
        JObj ps \<Rightarrow>
          distinct (map fst ps) \<and> js_ordered (map fst ps)
          \<and> (case map_of ps ''defaultPlaybackSettings'' of
                Some (JObj qs) \<Rightarrow> distinct (map fst qs) \<and> js_ordered (map fst qs)
              | _ \<Rightarrow> False)
      | _ \<Rightarrow> False)"

definition default_fields_first :: "'n json \<Rightarrow> 'n json \<Rightarrow> bool" where
  "default_fields_first defaults settings =
     (take (length (object_keys (Some defaults))) (object_keys (Some settings))
        = object_keys (Some defaults)
      \<and> take (length (object_keys (getProp defaults ''defaultPlaybackSettings'')))
            (object_keys (getProp settings ''defaultPlaybackSettings''))
          = object_keys (getProp defaults ''defaultPlaybackSettings''))"

text \<open>
  Example data: the settings file of the store's migration tests, written by a version
  that had no \<open>skipOutroSeconds\<close>; the default settings with \<open>autoDownload\<close> listed
  first; the default settings with one more property, whose key is an array index; a file that never parses, one that holds a JSON string and one that holds the
  settings of \<open>partialSettings\<close>; and settings stores on the last and on the first.
\<close>

definition reorderedSettings :: "int json" where
  "reorderedSettings =
     JObj [(''autoDownload'', JBool False),
           (''dataFolderPath'', JStr ''podcasts''),
           (''defaultPlaybackSettings'',
              JObj [(''volume'', JNum 1), (''playbackSpeed'', JNum 1),
                    (''skipIntroSeconds'', JNum 0), (''skipOutroSeconds'', JNum 0)]),
           (''maxCacheEpisodes'', JNum 50),
           (''feedUpdateInterval'', JNum 3600000),
           (''enableNotifications'', JBool True)]"

definition indexedSettings :: "int json" where
  "indexedSettings =
     JObj [(''7'', JBool True),
           (''dataFolderPath'', JStr ''podcasts''),
           (''defaultPlaybackSettings'',
              JObj [(''volume'', JNum 1), (''playbackSpeed'', JNum 1),
                    (''skipIntroSeconds'', JNum 0), (''skipOutroSeconds'', JNum 0)]),
           (''autoDownload'', JBool False),
           (''maxCacheEpisodes'', JNum 50),
           (''feedUpdateInterval'', JNum 3600000),
           (''enableNotifications'', JBool True)]"

definition partialSettings :: "int json" where
  "partialSettings =
     JObj [(''dataFolderPath'', JStr ''custom/path''),
           (''defaultPlaybackSettings'',
              JObj [(''volume'', JNum 1), (''playbackSpeed'', JNum 1),
                    (''skipIntroSeconds'', JNum 0)]),
           (''autoDownload'', JBool False),
           (''maxCacheEpisodes'', JNum 50),
           (''feedUpdateInterval'', JNum 60),
           (''enableNotifications'', JBool True)]"

definition unparsable :: "string \<Rightarrow> int json option" where
  "unparsable content = None"

definition parse_as_string :: "string \<Rightarrow> int json option" where
  "parse_as_string content = Some (JStr content)"

definition holds_partialSettings :: "string \<Rightarrow> int json option" where
  "holds_partialSettings content = Some partialSettings"

definition stored_settings_hooks :: "int json store_hooks" where
  "stored_settings_hooks = SettingsStore ''settings.json'' holds_partialSettings DEFAULT_SETTINGS"

definition settings_hooks :: "int json store_hooks" where
  "settings_hooks = SettingsStore ''settings.json'' unparsable DEFAULT_SETTINGS"

section \<open>FeedService (feed/FeedService.ts)\<close>

datatype FeedType = RSS | ATOM | UNKNOWN

subsection \<open>String primitives\<close>

fun toLowerCase_char :: "char \<Rightarrow> char" where
  "toLowerCase_char (Char b0 b1 b2 b3 b4 b5 b6 b7) =
     (if 65 \<le> (of_char (Char b0 b1 b2 b3 b4 b5 b6 b7) :: nat)
         \<and> (of_char (Char b0 b1 b2 b3 b4 b5 b6 b7) :: nat) \<le> 90
      then Char b0 b1 b2 b3 b4 True b6 b7
      else Char b0 b1 b2 b3 b4 b5 b6 b7)"

definition toLowerCase :: "string \<Rightarrow> string" where
  "toLowerCase s = map toLowerCase_char s"

definition isWhiteSpace :: "char \<Rightarrow> bool" where
  "isWhiteSpace c = (c \<in> set [CHR 0x20, CHR 0x09, CHR 0x0A, CHR 0x0B, CHR 0x0C, CHR 0x0D])"

definition trim :: "string \<Rightarrow> string" where
  "trim s = rev (dropWhile isWhiteSpace (rev (dropWhile isWhiteSpace s)))"

fun startsWith :: "string \<Rightarrow> string \<Rightarrow> bool" where
  "startsWith s [] = True"
| "startsWith [] (p # ps) = False"
| "startsWith (c # cs) (p # ps) = (c = p \<and> startsWith cs ps)"

fun string_includes :: "string \<Rightarrow> string \<Rightarrow> bool" where
  "string_includes [] pat = (pat = [])"
| "string_includes (c # cs) pat = (startsWith (c # cs) pat \<or> string_includes cs pat)"

subsection \<open>Errors, parsers and the feed cache\<close>

datatype js_error =
    Error string
  | NetworkError string string "js_error option"
  \<comment> \<open>message, url, cause\<close>

fun message :: "js_error \<Rightarrow> string" where
  "message (Error m) = m"
| "message (NetworkError m u c) = m"

text \<open>
  RSSParser and AtomParser are not among the sources: their \<open>parseFromString\<close> (which
  may throw) and their static \<open>validateXML\<close> are parameters. \<open>'r\<close> is the parsed feed,
  \<open>{podcast, episodes}\<close>.
\<close>

record cache_entry =
  data :: string
  cachedAt :: int
  ttl :: int
  entry_etag :: "string option"
  entry_lastModified :: "string option"

record 'r feed_service =
  rssParser_parseFromString :: "string \<Rightarrow> string \<Rightarrow> js_error + 'r"
  atomParser_parseFromString :: "string \<Rightarrow> string \<Rightarrow> js_error + 'r"
  RSSParser_validateXML :: "string \<Rightarrow> bool"
  AtomParser_validateXML :: "string \<Rightarrow> bool"
  cacheStore :: "(string \<rightharpoonup> cache_entry) option"

text \<open>
  Modelled from the spec: \<open>FeedCacheStore.getCacheEntry\<close> of storage/CacheStore is not
  among the sources. An entry expires when now > cachedAt + ttl; expiry is evaluated at
  read time, and a read of an expired entry is a miss.
\<close>

definition getCacheEntry :: "(string \<rightharpoonup> cache_entry) \<Rightarrow> int \<Rightarrow> string \<Rightarrow> cache_entry option" where
  "getCacheEntry entries now feedUrl =
     (case entries feedUrl of
        None \<Rightarrow> None
      | Some e \<Rightarrow> if now > cachedAt e + ttl e then None else Some e)"

subsection \<open>detectFeedType\<close>

definition detectFeedType :: "'r feed_service \<Rightarrow> string \<Rightarrow> FeedType" where
  \<open>detectFeedType svc xml =
     (let trimmed = toLowerCase (trim xml)
      in if string_includes trimmed ''<rss'' then RSS
         else if string_includes trimmed ''<feed''
                 \<and> string_includes trimmed ''xmlns="http://www.w3.org/2005/atom"'' then ATOM
         else if RSSParser_validateXML svc xml then RSS
         else if AtomParser_validateXML svc xml then ATOM
         else UNKNOWN)\<close>

subsection \<open>fetchFeedXML\<close>

record http_response =
  status :: int
  response_text :: string
  header_etag :: "string option"
  header_lastModified :: "string option"

datatype http_attempt = Fails js_error | Responds http_response

text \<open>
  The host's side of a fetch: its clock, what \<open>requestUrl\<close> answers to the request
  headers at each attempt, what \<open>fetch\<close> answers, what the \<open>https\<close> request answers.
  \<open>retryWithBackoff\<close> of utils/errorUtils is not among the sources: it is a parameter
  that runs attempts (numbered from 0) and gives a response or throws.
\<close>

record host =
  now :: int
  requestUrl :: "(string \<times> string) list \<Rightarrow> nat \<Rightarrow> http_attempt"
  retryWithBackoff :: "(nat \<Rightarrow> js_error + http_response) \<Rightarrow> js_error + http_response"
  fetch :: "string \<Rightarrow> http_attempt"
  https_request :: "string \<Rightarrow> string \<Rightarrow> http_attempt"

datatype effect =
    Tier1 | Tier2 | Tier3
  | SetCacheEntry string string int "string option" "string option"
  \<comment> \<open>a transport tried; \<open>cacheStore.setCacheEntry(feedUrl, xml, ttl, metadata)\<close>\<close>

definition default_userAgent :: string where
  "default_userAgent = ''Mozilla/5.0 (Windows NT 10.0; Win64; x64) AppleWebKit/537.36 (KHTML, like Gecko) Chrome/120.0.0.0 Safari/537.36''"

definition truthy_string :: "string option \<Rightarrow> bool" where
  "truthy_string v = (case v of None \<Rightarrow> False | Some s \<Rightarrow> s \<noteq> [])"

definition request_headers :: "string \<Rightarrow> string option \<Rightarrow> string option \<Rightarrow> (string \<times> string) list" where
  "request_headers userAgent etag lastModified =
     [(''Accept'', ''application/rss+xml, application/atom+xml, application/xml, text/xml''),
      (''Accept-Language'', ''en-US,en;q=0.9'')]
     @ (if userAgent \<noteq> [] \<and> userAgent \<noteq> default_userAgent then [(''User-Agent'', userAgent)] else [])
     @ (if truthy_string etag then [(''If-None-Match'', the etag)] else [])
     @ (if truthy_string lastModified then [(''If-Modified-Since'', the lastModified)] else [])"

text \<open>The function that \<open>fetchFeedXML\<close> hands to \<open>retryWithBackoff\<close>: one attempt.\<close>

definition tier1_attempt :: "string \<Rightarrow> http_attempt \<Rightarrow> js_error + http_response" where
  "tier1_attempt feedUrl a =
     (case a of
        Fails e \<Rightarrow> Inl e
      | Responds response \<Rightarrow>
          (if status response = 304 then Inl (Error ''NOT_MODIFIED'')
           else if status response \<ge> 400
           then Inl (NetworkError (''HTTP '' @ show_int (status response) @ '': Failed to fetch feed'')
                      feedUrl None)
           else Inr response))"

definition tier2_fetch :: "host \<Rightarrow> string \<Rightarrow> js_error + http_response" where
  "tier2_fetch hst feedUrl =
     (case fetch hst feedUrl of
        Fails e \<Rightarrow> Inl e
      | Responds r \<Rightarrow>
          (if \<not> (200 \<le> status r \<and> status r \<le> 299)
           then Inl (Error (''Fetch returned status '' @ show_int (status r)))
           else Inr (r\<lparr> header_etag := (if truthy_string (header_etag r) then header_etag r else None),
                       header_lastModified :=
                         (if truthy_string (header_lastModified r) then header_lastModified r else None) \<rparr>)))"

definition tier3_https :: "host \<Rightarrow> string \<Rightarrow> string \<Rightarrow> js_error + http_response" where
  "tier3_https hst feedUrl userAgent =
     (case https_request hst feedUrl (if userAgent \<noteq> [] then userAgent else ''Obsidian/1.0.0'') of
        Fails e \<Rightarrow> Inl e
      | Responds res \<Rightarrow>
          (if status res \<noteq> 0 \<and> status res \<ge> 200 \<and> status res < 300 then Inr res
           else Inl (Error (''HTTPS Node request returned status '' @ show_int (status res)))))"

definition fetchFeedXML ::
  "host \<Rightarrow> string \<Rightarrow> string \<Rightarrow> string option \<Rightarrow> string option
    \<Rightarrow> (js_error + http_response) \<times> effect list" where
  "fetchFeedXML hst feedUrl userAgent etag lastModified =
     (case retryWithBackoff hst
             (\<lambda>i. tier1_attempt feedUrl
                     (requestUrl hst (request_headers userAgent etag lastModified) i)) of
        Inr response \<Rightarrow> (Inr response, [Tier1])
      | Inl error \<Rightarrow>
          (if message error = ''NOT_MODIFIED'' then (Inl error, [Tier1])
           else
             (case tier2_fetch hst feedUrl of
                Inr r \<Rightarrow> (Inr r, [Tier1, Tier2])
              | Inl fetchErr \<Rightarrow>
                  (case tier3_https hst feedUrl userAgent of
                     Inr r \<Rightarrow> (Inr r, [Tier1, Tier2, Tier3])
                   | Inl nodeErr \<Rightarrow>
                       (Inl (NetworkError ''Failed to fetch feed'' feedUrl (Some nodeErr)),
                        [Tier1, Tier2, Tier3])))))"

subsection \<open>fetchFeed\<close>

record FeedFetchOptions =
  useCache :: "bool option"
  cacheTTL :: "int option"
  userAgent :: "string option"
  etag :: "string option"
  lastModified :: "string option"

definition getCachedFeed :: "'r feed_service \<Rightarrow> host \<Rightarrow> string \<Rightarrow> 'r option" where
  "getCachedFeed svc hst feedUrl =
     (case cacheStore svc of
        None \<Rightarrow> None
      | Some entries \<Rightarrow>
          (case getCacheEntry entries (now hst) feedUrl of
             None \<Rightarrow> None
           | Some cachedEntry \<Rightarrow>
               (let feedType = detectFeedType svc (data cachedEntry)
                in if feedType = RSS
                   then (case rssParser_parseFromString svc (data cachedEntry) feedUrl of
                           Inr r \<Rightarrow> Some r | Inl e \<Rightarrow> None)
                   else if feedType = ATOM
                   then (case atomParser_parseFromString svc (data cachedEntry) feedUrl of
                           Inr r \<Rightarrow> Some r | Inl e \<Rightarrow> None)
                   else None)))"

definition parseFeed :: "'r feed_service \<Rightarrow> string \<Rightarrow> string \<Rightarrow> js_error + 'r" where
  "parseFeed svc xml feedUrl =
     (let feedType = detectFeedType svc xml
      in if feedType = RSS then rssParser_parseFromString svc xml feedUrl
         else if feedType = ATOM then atomParser_parseFromString svc xml feedUrl
         else (case rssParser_parseFromString svc xml feedUrl of
                 Inr r \<Rightarrow> Inr r
               | Inl e \<Rightarrow> atomParser_parseFromString svc xml feedUrl))"

definition fetchFeed ::
  "'r feed_service \<Rightarrow> host \<Rightarrow> string \<Rightarrow> FeedFetchOptions \<Rightarrow> (js_error + 'r) \<times> effect list" where
  "fetchFeed svc hst feedUrl options =
     (let use_cache = (case useCache options of None \<Rightarrow> True | Some b \<Rightarrow> b);
          cache_ttl = (case cacheTTL options of None \<Rightarrow> 3600000 | Some t \<Rightarrow> t);
          user_agent = (case userAgent options of None \<Rightarrow> default_userAgent | Some u \<Rightarrow> u);
          cachedData = (if use_cache \<and> cacheStore svc \<noteq> None
                        then getCachedFeed svc hst feedUrl else None)
      in case cachedData of
           Some r \<Rightarrow> (Inr r, [])
         | None \<Rightarrow>
             (case fetchFeedXML hst feedUrl user_agent (etag options) (lastModified options) of
                (Inl e, effs) \<Rightarrow> (Inl e, effs)
              | (Inr response, effs) \<Rightarrow>
                  (case parseFeed svc (response_text response) feedUrl of
                     Inl e \<Rightarrow> (Inl e, effs)
                   | Inr result \<Rightarrow>
                       (Inr result,
                        effs @ (if cacheStore svc \<noteq> None
                                then [SetCacheEntry feedUrl (response_text response) cache_ttl
                                        (header_etag response) (header_lastModified response)]
                                else [])))))"

subsection \<open>Example parsers, hosts and caches\<close>

text \<open>
  Modelled from the spec: a \<open>retryWithBackoff\<close> of three attempts, each awaited before
  the next, which gives the first response or throws the last error.
\<close>

definition retry3 :: "(nat \<Rightarrow> js_error + http_response) \<Rightarrow> js_error + http_response" where
  "retry3 attempt =
     (case attempt 0 of
        Inr r \<Rightarrow> Inr r
      | Inl e0 \<Rightarrow>
          (case attempt 1 of
             Inr r \<Rightarrow> Inr r
           | Inl e1 \<Rightarrow> attempt 2))"

text \<open>
  Stand-ins for the parsers: a feed parses as RSS when it has a channel and as Atom
  when it has an entry, and the schema checks look at the root element.
\<close>

definition example_service :: "(string \<rightharpoonup> cache_entry) option \<Rightarrow> string feed_service" where
  "example_service store =
     \<lparr> rssParser_parseFromString =
         (\<lambda>xml feedUrl. if string_includes xml ''<channel>'' then Inr (''rss '' @ xml)
                         else Inl (Error ''Invalid RSS feed'')),
       atomParser_parseFromString =
         (\<lambda>xml feedUrl. if string_includes xml ''<entry>'' then Inr (''atom '' @ xml)
                         else Inl (Error ''Invalid Atom feed'')),
       RSSParser_validateXML = (\<lambda>xml. startsWith (trim xml) ''<rss''),
       AtomParser_validateXML = (\<lambda>xml. startsWith (trim xml) ''<feed''),
       cacheStore = store \<rparr>"

definition respond :: "int \<Rightarrow> string \<Rightarrow> http_attempt" where
  "respond code body =
     Responds \<lparr> status = code, response_text = body, header_etag = None,
                header_lastModified = None \<rparr>"

definition example_host :: "http_attempt \<Rightarrow> http_attempt \<Rightarrow> http_attempt \<Rightarrow> host" where
  "example_host a1 a2 a3 =
     \<lparr> now = 1000, requestUrl = (\<lambda>headers i. a1), retryWithBackoff = retry3,
       fetch = (\<lambda>feedUrl. a2), https_request = (\<lambda>feedUrl agent. a3) \<rparr>"



definition cached :: "string \<Rightarrow> string \<Rightarrow> (string \<rightharpoonup> cache_entry)" where
  "cached feedUrl xml =
     [feedUrl \<mapsto> \<lparr> data = xml, cachedAt = 0, ttl = 3600000, entry_etag = None,
                    entry_lastModified = None \<rparr>]"

definition no_options :: FeedFetchOptions where
  "no_options = \<lparr> useCache = None, cacheTTL = None, userAgent = None, etag = None,
                  lastModified = None \<rparr>"

definition atom_with_rss_in_cdata :: string where
  \<open>atom_with_rss_in_cdata =
     ''<feed xmlns="http://www.w3.org/2005/Atom"><entry><![CDATA[<rss>]]></entry></feed>''\<close>

section \<open>Properties of SingleFileStore\<close>

subsection \<open>Helper facts\<close>

lemma run_append: "run h (es @ fs) s = run h fs (run h es s)"
  by (induction es arbitrary: s) simp_all

lemma array_index_no_digit: "\<not> is_digit c \<Longrightarrow> array_index (c # cs) = None"
  by (simp add: array_index_def)

lemma precedes_no_digit: "\<not> is_digit c \<Longrightarrow> \<not> precedes (c # cs) k"
  by (simp add: precedes_def array_index_no_digit)

lemma getDefaultValue_DEFAULT_SETTINGS:
  "SettingsStore_getDefaultValue DEFAULT_SETTINGS = DEFAULT_SETTINGS"
  by (simp add: SettingsStore_getDefaultValue_def ownProps_def DEFAULT_SETTINGS_def
      precedes_no_digit is_digit_def)

lemma DEFAULT_SETTINGS_valid: "SettingsStore_validate DEFAULT_SETTINGS"
  by (simp add: SettingsStore_validate_def DEFAULT_SETTINGS_def getProp_def falsy_def
      typeof_def negative_def)

lemma partialSettings_valid: "SettingsStore_validate partialSettings"
  by (simp add: SettingsStore_validate_def partialSettings_def getProp_def falsy_def
      typeof_def negative_def)

lemma settings_hooks_simps:
  "validate settings_hooks = SettingsStore_validate"
  "filePath settings_hooks = ''settings.json''"
  "getDefaultValue settings_hooks = DEFAULT_SETTINGS"
  "JSON_parse settings_hooks = unparsable"
  by (simp_all add: settings_hooks_def SettingsStore_def getDefaultValue_DEFAULT_SETTINGS)

lemma stored_settings_hooks_simps:
  "validate stored_settings_hooks = SettingsStore_validate"
  "filePath stored_settings_hooks = ''settings.json''"
  "getDefaultValue stored_settings_hooks = DEFAULT_SETTINGS"
  "JSON_parse stored_settings_hooks = holds_partialSettings"
  by (simp_all add: stored_settings_hooks_def SettingsStore_def getDefaultValue_DEFAULT_SETTINGS)

lemma save_debounced:
  assumes "validate h d"
  shows "save h d False s =
           (Returned, s\<lparr> cache := Some d, cacheTimestamp := clock s, isDirty := True,
                        saveDebounceTimer := Some (clock s + SAVE_DEBOUNCE_MS) \<rparr>)"
  using assms by (simp add: save_def scheduleDebouncedSave_def)

lemma save_valid_state:
  assumes "validate h x"
  shows "cache (snd (save h x immediate s)) = Some x
       \<and> cacheTimestamp (snd (save h x immediate s)) = clock s
       \<and> clock (snd (save h x immediate s)) = clock s
       \<and> isDirty (snd (save h x immediate s))
       \<and> loadPromise (snd (save h x immediate s)) = loadPromise s
       \<and> diskReads (snd (save h x immediate s)) = diskReads s"
  using assms
  by (simp add: save_def flush_def writeJson_def scheduleDebouncedSave_def Let_def)

subsection \<open>Load deduplication\<close>

lemma step_keeps_in_flight_load:
  assumes "loadPromise s = Some (p, t)" and "\<not> is_ReadSettles e"
  shows "loadPromise (step h e s) = Some (p, t) \<and> diskReads (step h e s) = diskReads s"
  using assms
  by (cases e)
     (auto simp: load_def save_def flush_def writeJson_def scheduleDebouncedSave_def
        invalidateCache_def writeSettles_def elapse_def timerCallback_def Let_def
        split: list.splits write_origin.splits option.splits)

lemma run_keeps_in_flight_load:
  assumes "loadPromise s = Some (p, t)" and "\<forall>e \<in> set es. \<not> is_ReadSettles e"
  shows "loadPromise (run h es s) = Some (p, t) \<and> diskReads (run h es s) = diskReads s"
  using assms
proof (induction es arbitrary: s)
  case Nil
  then show ?case by simp
next
  case (Cons e es)
  have "loadPromise (step h e s) = Some (p, t) \<and> diskReads (step h e s) = diskReads s"
    using Cons.prems step_keeps_in_flight_load [of s p t e h] by simp
  then show ?case using Cons.IH [of "step h e s"] Cons.prems by simp
qed

text \<open>
  C1. While a load's disk read is in flight, whatever else the store is asked to do
  before the read settles, every \<open>load()\<close> returns the promise of that same read and
  starts no disk read. When the read settles, its promise resolves and the slot is
  cleared; a later \<open>load()\<close> that finds no fresh cache starts a new read.
\<close>

theorem load_deduplicated:
  assumes "loadPromise s = Some (p, t)" and "\<forall>e \<in> set es. \<not> is_ReadSettles e"
  shows "load (run h es s) = (Awaits p, run h es s)
       \<and> diskReads (run h es s) = diskReads s
       \<and> (\<exists>r. fst (readSettles h outcome (run h es s)) = Some (p, r))
       \<and> loadPromise (snd (readSettles h outcome (run h es s))) = None
       \<and> (let s' = snd (readSettles h outcome (run h es s))
          in cache s' = None \<or> CACHE_TTL_MS \<le> clock s' - cacheTimestamp s'
             \<longrightarrow> fst (load s') = Awaits (diskReads s)
                 \<and> diskReads (snd (load s')) = Suc (diskReads s)
                 \<and> loadPromise (snd (load s')) = Some (diskReads s, clock s'))"
proof -
  let ?s = "run h es s"
  have inv: "loadPromise ?s = Some (p, t)" "diskReads ?s = diskReads s"
    using run_keeps_in_flight_load [OF assms] by simp_all
  have 1: "load ?s = (Awaits p, ?s)" using inv by (simp add: load_def)
  obtain r s1 where pl: "performLoad h t outcome ?s = (r, s1)" by fastforce
  have s1: "diskReads s1 = diskReads s"
    using pl inv by (auto simp: performLoad_def split: sum.splits if_splits)
  have rs: "readSettles h outcome ?s = (Some (p, r), s1\<lparr>loadPromise := None\<rparr>)"
    using inv pl by (simp add: readSettles_def)
  show ?thesis using 1 inv rs s1 by (auto simp: load_def Let_def)
qed

theorem load_deduplicated_witness:
  "fst (load (new_store 0 :: int json single_file_store)) = Awaits 0
   \<and> fst (load (run settings_hooks [CallLoad, CallSave DEFAULT_SETTINGS False, Elapse 5]
            (snd (load (new_store 0))))) = Awaits 0
   \<and> diskReads (run settings_hooks [CallLoad, CallSave DEFAULT_SETTINGS False, Elapse 5]
            (snd (load (new_store 0)))) = 1
   \<and> loadPromise (snd (readSettles settings_hooks FileMissing
        (run settings_hooks [CallLoad, CallSave DEFAULT_SETTINGS False, Elapse 5]
            (snd (load (new_store 0)))))) = None"
  using load_deduplicated [of "snd (load (new_store 0))" 0 0
      "[CallLoad, CallSave DEFAULT_SETTINGS False, Elapse 5]" settings_hooks FileMissing]
  by (simp add: load_def new_store_def)

subsection \<open>Cache TTL\<close>

lemma elapsed_nonneg: "0 \<le> elapsed es"
  by (induction es rule: elapsed.induct) simp_all

lemma step_keeps_fresh_cache:
  assumes "loadPromise s = None" and "cache s = Some x" and "keeps_cache e"
    and "clock s - cacheTimestamp s + elapsed [e] < CACHE_TTL_MS"
  shows "loadPromise (step h e s) = None \<and> cache (step h e s) = Some x
       \<and> cacheTimestamp (step h e s) = cacheTimestamp s
       \<and> clock (step h e s) = clock s + elapsed [e]"
  using assms
  by (cases e)
     (auto simp: load_def readSettles_def flush_def writeJson_def writeSettles_def
        elapse_def timerCallback_def Let_def
        split: list.splits write_origin.splits option.splits)

lemma run_keeps_fresh_cache:
  assumes "loadPromise s = None" and "cache s = Some x" and "\<forall>e \<in> set es. keeps_cache e"
    and "clock s - cacheTimestamp s + elapsed es < CACHE_TTL_MS"
  shows "loadPromise (run h es s) = None \<and> cache (run h es s) = Some x
       \<and> clock (run h es s) - cacheTimestamp (run h es s) < CACHE_TTL_MS"
  using assms
proof (induction es arbitrary: s)
  case Nil
  then show ?case by simp
next
  case (Cons e es)
  have split: "elapsed (e # es) = elapsed [e] + elapsed es"
    by (cases e) simp_all
  have "clock s - cacheTimestamp s + elapsed [e] < CACHE_TTL_MS"
    using Cons.prems(4) split elapsed_nonneg [of es] by simp
  then have st: "loadPromise (step h e s) = None \<and> cache (step h e s) = Some x
       \<and> cacheTimestamp (step h e s) = cacheTimestamp s
       \<and> clock (step h e s) = clock s + elapsed [e]"
    using step_keeps_fresh_cache [of s x e h] Cons.prems by simp
  then have "clock (step h e s) - cacheTimestamp (step h e s) + elapsed es < CACHE_TTL_MS"
    using Cons.prems(4) split by simp
  then show ?case
    using Cons.IH [of "step h e s"] st Cons.prems(3) by simp
qed

text \<open>
  What holds. With no load in flight, a \<open>load()\<close> that finds the cache populated and
  younger than the TTL returns the cached value and leaves the store as it is (no disk
  read). When no load is in flight at the time of a valid \<open>save(x)\<close>, debounced or
  immediate, a \<open>load()\<close> within the TTL returns \<open>x\<close>, whatever happened in between
  other than another save or an \<open>invalidateCache()\<close>.
\<close>

lemma fresh_cache_returned:
  assumes "loadPromise s = None"
  shows "(cache s = Some v \<and> clock s - cacheTimestamp s < CACHE_TTL_MS \<longrightarrow> load s = (Ready v, s))
       \<and> (validate h x \<and> (\<forall>e \<in> set es. keeps_cache e) \<and> elapsed es < CACHE_TTL_MS
            \<longrightarrow> load (run h es (snd (save h x immediate s)))
                  = (Ready x, run h es (snd (save h x immediate s))))"
proof (intro conjI impI)
  assume "cache s = Some v \<and> clock s - cacheTimestamp s < CACHE_TTL_MS"
  then show "load s = (Ready v, s)" using assms by (simp add: load_def)
next
  assume a: "validate h x \<and> (\<forall>e \<in> set es. keeps_cache e) \<and> elapsed es < CACHE_TTL_MS"
  let ?s1 = "snd (save h x immediate s)"
  have s1: "cache ?s1 = Some x" "cacheTimestamp ?s1 = clock s" "clock ?s1 = clock s"
    "loadPromise ?s1 = None"
    using save_valid_state [of h x immediate s] a assms by simp_all
  have "loadPromise (run h es ?s1) = None \<and> cache (run h es ?s1) = Some x
       \<and> clock (run h es ?s1) - cacheTimestamp (run h es ?s1) < CACHE_TTL_MS"
    using run_keeps_fresh_cache [of ?s1 x es h] s1 a by simp
  then show "load (run h es ?s1) = (Ready x, run h es ?s1)"
    by (simp add: load_def)
qed

text \<open>
  C3. A \<open>load()\<close> within the TTL of a \<open>save(x)\<close> does not always return \<open>x\<close>. The
  settings file holds \<open>partialSettings\<close>. A \<open>load()\<close> starts the disk read; while the read
  is in flight the default settings are saved; the read settles, and \<open>performLoad\<close>
  puts the file's data into the cache, over the saved value. Five milliseconds later
  no load is in flight, no \<open>invalidateCache()\<close> was called and the cache is younger than
  the TTL: \<open>load()\<close> reads nothing and returns \<open>partialSettings\<close>, not the saved settings.
\<close>

theorem load_after_save_returns_older_data:
  "loadPromise (run stored_settings_hooks
      [CallLoad, CallSave DEFAULT_SETTINGS False, ReadSettles (FileContent ''{}''), Elapse 5]
      (new_store 0)) = None
   \<and> load (run stored_settings_hooks
      [CallLoad, CallSave DEFAULT_SETTINGS False, ReadSettles (FileContent ''{}''), Elapse 5]
      (new_store 0))
     = (Ready partialSettings,
        run stored_settings_hooks
          [CallLoad, CallSave DEFAULT_SETTINGS False, ReadSettles (FileContent ''{}''), Elapse 5]
          (new_store 0))
   \<and> partialSettings \<noteq> DEFAULT_SETTINGS"
  by (simp add: stored_settings_hooks_simps DEFAULT_SETTINGS_valid partialSettings_valid
      load_def save_debounced readSettles_def performLoad_def readJson_def safeJsonParse_def
      holds_partialSettings_def elapse_def CACHE_TTL_MS_def SAVE_DEBOUNCE_MS_def new_store_def)
     (simp add: partialSettings_def DEFAULT_SETTINGS_def)

subsection \<open>Validation gate\<close>

text \<open>
  C4. A payload that fails \<open>validate\<close> is rejected by \<open>save\<close>, debounced or immediate,
  with a StorageError, and the store is left as it was: no disk write is started, and
  the cache, its timestamp, the dirty flag and the timer are unchanged.
\<close>

theorem save_invalid_rejected:
  assumes "\<not> validate h d"
  shows "save h d immediate s = (Threw (StorageError ''Data validation failed'' (filePath h)), s)"
  using assms by (simp add: save_def)

theorem save_invalid_rejected_witness:
  "save settings_hooks (JStr ''string'') True (new_store 0)
     = (Threw (StorageError ''Data validation failed'' ''settings.json''), new_store 0)"
  using save_invalid_rejected [of settings_hooks "JStr ''string''" True "new_store 0"]
  by (simp add: settings_hooks_simps SettingsStore_validate_def falsy_def typeof_def)

subsection \<open>Corruption recovery\<close>

text \<open>
  C5. When the read of a load finds no file, or a text that does not parse, or data
  that fails \<open>validate\<close>, the load resolves to \<open>getDefaultValue()\<close>, not to an error.
  No disk write is started, and the timer and the dirty flag are untouched; where read
  data failed validation, the cache and its timestamp are left as they were.
\<close>

theorem load_masks_corruption:
  assumes "loadPromise s = Some (p, t)"
    and "outcome = FileMissing
         \<or> (\<exists>c. outcome = FileContent c
                 \<and> (JSON_parse h c = None \<or> (\<exists>d. JSON_parse h c = Some d \<and> \<not> validate h d)))"
  shows "fst (readSettles h outcome s) = Some (p, Inr (getDefaultValue h))
       \<and> diskWrites (snd (readSettles h outcome s)) = diskWrites s
       \<and> writesInFlight (snd (readSettles h outcome s)) = writesInFlight s
       \<and> saveDebounceTimer (snd (readSettles h outcome s)) = saveDebounceTimer s
       \<and> isDirty (snd (readSettles h outcome s)) = isDirty s
       \<and> ((\<exists>c d. outcome = FileContent c \<and> JSON_parse h c = Some d \<and> \<not> validate h d)
            \<longrightarrow> cache (snd (readSettles h outcome s)) = cache s
                \<and> cacheTimestamp (snd (readSettles h outcome s)) = cacheTimestamp s)"
  using assms
  by (auto simp: readSettles_def performLoad_def readJson_def safeJsonParse_def
        split: option.splits if_splits)

theorem load_masks_corruption_witness:
  "fst (readSettles (SettingsStore ''settings.json'' parse_as_string DEFAULT_SETTINGS)
          (FileContent ''string'') (snd (load (new_store 0))))
     = Some (0, Inr DEFAULT_SETTINGS)
   \<and> cache (snd (readSettles
          (SettingsStore ''settings.json'' parse_as_string DEFAULT_SETTINGS)
          (FileContent ''string'') (snd (load (new_store 0))))) = None
   \<and> diskWrites (snd (readSettles
          (SettingsStore ''settings.json'' parse_as_string DEFAULT_SETTINGS)
          (FileContent ''string'') (snd (load (new_store 0))))) = []"
  using load_masks_corruption [of "snd (load (new_store 0))" 0 0 "FileContent ''string''"
      "SettingsStore ''settings.json'' parse_as_string DEFAULT_SETTINGS"]
  by (simp add: load_def new_store_def SettingsStore_def SettingsStore_validate_def
      getDefaultValue_DEFAULT_SETTINGS falsy_def typeof_def parse_as_string_def)

subsection \<open>Debounce coalescing\<close>

lemma save_then_short_gap:
  assumes "validate h d" and "int gap < SAVE_DEBOUNCE_MS"
  shows "diskWrites (run h [CallSave d False, Elapse gap] s) = diskWrites s
       \<and> writesInFlight (run h [CallSave d False, Elapse gap] s) = writesInFlight s"
  using assms by (simp add: save_debounced elapse_def)

lemma debounced_saves_no_write:
  assumes "\<forall>(d, gap) \<in> set xs. validate h d \<and> int gap < SAVE_DEBOUNCE_MS"
  shows "diskWrites (run h (debounced_saves xs) s) = diskWrites s
       \<and> writesInFlight (run h (debounced_saves xs) s) = writesInFlight s"
  using assms
proof (induction xs arbitrary: s)
  case Nil
  then show ?case by simp
next
  case (Cons a xs)
  obtain d gap where a: "a = (d, gap)" by (cases a)
  have ok: "validate h d" "int gap < SAVE_DEBOUNCE_MS"
    using Cons.prems a by simp_all
  let ?s = "run h [CallSave d False, Elapse gap] s"
  have "run h (debounced_saves (a # xs)) s = run h (debounced_saves xs) ?s"
    using a by simp
  then show ?case
    using Cons.IH [of ?s] Cons.prems save_then_short_gap [OF ok, of s] by simp
qed

lemma last_save_written:
  assumes "validate h d" and "SAVE_DEBOUNCE_MS \<le> int w"
  shows "diskWrites (run h [CallSave d False, Elapse w] s) = diskWrites s @ [d]
       \<and> writesInFlight (run h [CallSave d False, Elapse w] s) = writesInFlight s @ [DebouncedWrite]
       \<and> saveDebounceTimer (run h [CallSave d False, Elapse w] s) = None"
  using assms by (simp add: save_debounced elapse_def timerCallback_def writeJson_def)

text \<open>
  What holds. A row of valid debounced saves, each issued less than the debounce delay
  after the one before and with no other event of the store in between, followed by a
  quiet period of at least the delay, starts exactly one disk write, whose payload is the
  last value saved; no timer is left pending. Every debounced save, whatever timer was
  pending, leaves the timer set to a full delay from the time of the call.
\<close>

lemma undisturbed_saves_coalesce:
  assumes "\<forall>(d, gap) \<in> set xs. validate h d \<and> int gap < SAVE_DEBOUNCE_MS"
    and "validate h d" and "SAVE_DEBOUNCE_MS \<le> int w"
  shows "diskWrites (run h (debounced_saves xs @ [CallSave d False, Elapse w]) s) = diskWrites s @ [d]
       \<and> saveDebounceTimer (run h (debounced_saves xs @ [CallSave d False, Elapse w]) s) = None
       \<and> saveDebounceTimer (snd (save h d False s')) = Some (clock s' + SAVE_DEBOUNCE_MS)"
proof -
  let ?s = "run h (debounced_saves xs) s"
  have "diskWrites ?s = diskWrites s"
    using debounced_saves_no_write [OF assms(1)] by simp
  then show ?thesis
    using last_save_written [OF assms(2,3), of ?s] save_debounced [OF assms(2), of s']
    by (simp add: run_append)
qed

text \<open>
  C2. A debounced save followed by a full quiet window does not always give one disk
  write of the saved value. First run: the default settings are saved, the timer fires
  and the write is in flight; \<open>partialSettings\<close> is saved; the older write settles well
  within the window and clears the dirty flag; after the window no write has started
  for \<open>partialSettings\<close>. Second run: the settings file holds \<open>partialSettings\<close>, and a
  \<open>load()\<close> has its read in flight; the default settings are saved; the read settles
  within the window and replaces the cache; after the window the one write that has
  started carries \<open>partialSettings\<close>, not the saved default settings.
\<close>

theorem debounced_save_not_written:
  "diskWrites (run settings_hooks [CallSave DEFAULT_SETTINGS False, Elapse 1000] (new_store 0))
     = [DEFAULT_SETTINGS]
   \<and> diskWrites (run settings_hooks
         [CallSave partialSettings False, WriteSettles True, Elapse 1000]
         (run settings_hooks [CallSave DEFAULT_SETTINGS False, Elapse 1000] (new_store 0)))
       = [DEFAULT_SETTINGS]
   \<and> diskWrites (run stored_settings_hooks
         [CallSave DEFAULT_SETTINGS False, ReadSettles (FileContent ''{}''), Elapse 1000]
         (run stored_settings_hooks [CallLoad] (new_store 0)))
       = [partialSettings]
   \<and> partialSettings \<noteq> DEFAULT_SETTINGS"
  by (simp add: settings_hooks_simps stored_settings_hooks_simps DEFAULT_SETTINGS_valid
      partialSettings_valid load_def save_debounced readSettles_def performLoad_def
      readJson_def safeJsonParse_def holds_partialSettings_def elapse_def timerCallback_def
      writeJson_def writeSettles_def CACHE_TTL_MS_def SAVE_DEBOUNCE_MS_def new_store_def)
     (simp add: partialSettings_def DEFAULT_SETTINGS_def)

subsection \<open>The dirty flag\<close>

text \<open>
  What holds of the flag: a valid save sets it, a write that settles well clears it, and
  \<open>flush\<close> on a clean store starts no write, so that a second \<open>flush\<close> does what the
  first did.
\<close>

lemma save_sets_dirty:
  assumes "validate h d"
  shows "hasPendingChanges (snd (save h d immediate s))"
  using save_valid_state [OF assms, of immediate s] by (simp add: hasPendingChanges_def)

lemma settled_write_clears_dirty:
  assumes "writesInFlight s \<noteq> []"
  shows "\<not> hasPendingChanges (snd (writeSettles h True s))"
  using assms by (cases "writesInFlight s") (simp_all add: writeSettles_def hasPendingChanges_def)

lemma flush_clean_no_write:
  assumes "\<not> hasPendingChanges s"
  shows "flush s = (Returned, s\<lparr> saveDebounceTimer := None \<rparr>)"
    and "flush (snd (flush s)) = flush s"
  using assms by (simp_all add: flush_def hasPendingChanges_def)

text \<open>
  C10. The dirty flag does not always stay set until the saved data reaches the disk.
  A debounced save of the default settings; the timer fires after 1000 ms and the write
  starts; while it is in flight the settings of \<open>partialSettings\<close> are saved; the write
  settles well. Now \<open>hasPendingChanges()\<close> is false although the cache holds
  \<open>partialSettings\<close> and only the default settings were written, and neither the
  second timer nor a \<open>flush()\<close> writes them.
\<close>

theorem dirty_flag_lost_update:
  "cache (run settings_hooks
      [CallSave DEFAULT_SETTINGS False, Elapse 1000, CallSave partialSettings False,
       WriteSettles True] (new_store 0)) = Some partialSettings
   \<and> \<not> hasPendingChanges (run settings_hooks
      [CallSave DEFAULT_SETTINGS False, Elapse 1000, CallSave partialSettings False,
       WriteSettles True] (new_store 0))
   \<and> diskWrites (run settings_hooks
      [CallSave DEFAULT_SETTINGS False, Elapse 1000, CallSave partialSettings False,
       WriteSettles True, Elapse 1000, CallFlush] (new_store 0)) = [DEFAULT_SETTINGS]"
  by (simp add: settings_hooks_simps DEFAULT_SETTINGS_valid partialSettings_valid
      save_debounced elapse_def timerCallback_def writeJson_def writeSettles_def flush_def
      hasPendingChanges_def SAVE_DEBOUNCE_MS_def new_store_def)

section \<open>Properties of FeedService\<close>

subsection \<open>Feed type detection\<close>

lemma atom_with_rss_in_cdata_lower: "toLowerCase (trim atom_with_rss_in_cdata) = 
  ''<feed xmlns=\"http://www.w3.org/2005/atom\"><entry><![cdata[<rss>]]></entry></feed>''"
  by (simp add: atom_with_rss_in_cdata_def toLowerCase_def trim_def isWhiteSpace_def)

text \<open>
  C7. \<open>detectFeedType\<close> sniffs before it validates. A text that contains \<open><rss\<close>
  (in any letter case, anywhere) is RSS whatever the schema checks say; otherwise a text
  that contains \<open><feed\<close> and the double-quoted Atom namespace attribute is Atom; only
  when neither matches do the schema checks decide: RSS if the RSS check accepts, else
  Atom if the Atom check accepts, else UNKNOWN.
\<close>

theorem detectFeedType_sniffs_first:
  "(string_includes (toLowerCase (trim xml)) ''<rss'' \<longrightarrow> detectFeedType svc xml = RSS)
   \<and> (\<not> string_includes (toLowerCase (trim xml)) ''<rss''
        \<and> string_includes (toLowerCase (trim xml)) ''<feed''
        \<and> string_includes (toLowerCase (trim xml)) ''xmlns=\"http://www.w3.org/2005/atom\"''
        \<longrightarrow> detectFeedType svc xml = ATOM)
   \<and> (\<not> string_includes (toLowerCase (trim xml)) ''<rss''
        \<and> \<not> (string_includes (toLowerCase (trim xml)) ''<feed''
             \<and> string_includes (toLowerCase (trim xml)) ''xmlns=\"http://www.w3.org/2005/atom\"'')
        \<longrightarrow> detectFeedType svc xml =
              (if RSSParser_validateXML svc xml then RSS
               else if AtomParser_validateXML svc xml then ATOM else UNKNOWN))"
  by (simp add: detectFeedType_def Let_def)

theorem detectFeedType_sniffs_first_witness:
  "detectFeedType (example_service None) ''  <RSS version=\"2.0\"></RSS>'' = RSS
   \<and> detectFeedType (example_service None) ''<feed xmlns=\"http://www.w3.org/2005/Atom\"/>'' = ATOM
   \<and> detectFeedType (example_service None) ''<html></html>'' = UNKNOWN"
  using detectFeedType_sniffs_first [of "''  <RSS version=\"2.0\"></RSS>''" "example_service None"]
    detectFeedType_sniffs_first [of "''<feed xmlns=\"http://www.w3.org/2005/Atom\"/>''"
      "example_service None"]
    detectFeedType_sniffs_first [of "''<html></html>''" "example_service None"]
  by (simp add: toLowerCase_def trim_def isWhiteSpace_def example_service_def)

text \<open>
  An Atom feed that quotes \<open><rss>\<close> in a CDATA section: both sniffing tests match it,
  the RSS schema check rejects it and the Atom one accepts it, and it is typed RSS.
\<close>

theorem detectFeedType_cdata_counterexample:
  "string_includes (toLowerCase (trim atom_with_rss_in_cdata)) ''<feed''
   \<and> string_includes (toLowerCase (trim atom_with_rss_in_cdata)) ''xmlns=\"http://www.w3.org/2005/atom\"''
   \<and> \<not> RSSParser_validateXML (example_service None) atom_with_rss_in_cdata
   \<and> AtomParser_validateXML (example_service None) atom_with_rss_in_cdata
   \<and> detectFeedType (example_service None) atom_with_rss_in_cdata = RSS"
  by (simp add: detectFeedType_def Let_def atom_with_rss_in_cdata_lower example_service_def)
     (simp add: atom_with_rss_in_cdata_def trim_def isWhiteSpace_def)

subsection \<open>Transport fallback\<close>





subsection \<open>Feed cache\<close>

text \<open>
  C6. With \<open>useCache\<close> not switched off, a cache store configured and an entry for the
  URL that has not expired, whose XML \<open>detectFeedType\<close> types as RSS or Atom and whose
  parser of that type succeeds, \<open>fetchFeed\<close> returns that parse result and makes no
  network request (and no cache write).
\<close>

theorem fetchFeed_cache_hit:
  assumes "useCache options \<noteq> Some False"
    and "cacheStore svc = Some entries"
    and "entries feedUrl = Some e" and "now hst \<le> cachedAt e + ttl e"
    and "(detectFeedType svc (data e) = RSS
            \<and> rssParser_parseFromString svc (data e) feedUrl = Inr r)
         \<or> (detectFeedType svc (data e) = ATOM
            \<and> atomParser_parseFromString svc (data e) feedUrl = Inr r)"
  shows "fetchFeed svc hst feedUrl options = (Inr r, [])"
proof -
  have "getCacheEntry entries (now hst) feedUrl = Some e"
    using assms(3,4) by (simp add: getCacheEntry_def)
  then have "getCachedFeed svc hst feedUrl = Some r"
    using assms(2,5) by (auto simp: getCachedFeed_def Let_def)
  then show ?thesis
    using assms(1,2) by (cases "useCache options") (simp_all add: fetchFeed_def Let_def)
qed

theorem fetchFeed_cache_hit_witness:
  "fetchFeed (example_service (Some (cached ''https://example.com/feed.rss'' ''<rss><channel></channel></rss>'')))
      (example_host (Fails (Error ''offline'')) (Fails (Error ''offline'')) (Fails (Error ''offline'')))
      ''https://example.com/feed.rss'' no_options
     = (Inr ''rss <rss><channel></channel></rss>'', [])"
  using fetchFeed_cache_hit [of no_options
      "example_service (Some (cached ''https://example.com/feed.rss'' ''<rss><channel></channel></rss>''))"
      "cached ''https://example.com/feed.rss'' ''<rss><channel></channel></rss>''"
      "''https://example.com/feed.rss''"
      "\<lparr> data = ''<rss><channel></channel></rss>'', cachedAt = 0, ttl = 3600000, entry_etag = None,
                    entry_lastModified = None \<rparr>"
      "example_host (Fails (Error ''offline'')) (Fails (Error ''offline'')) (Fails (Error ''offline''))"
      "''rss <rss><channel></channel></rss>''"]
  by (simp add: no_options_def example_service_def cached_def example_host_def
      detectFeedType_def toLowerCase_def trim_def isWhiteSpace_def Let_def)

text \<open>
  A cached entry that has not expired, whose XML has no \<open>rss\<close> root (its type is
  UNKNOWN) although the RSS parser reads it: the cache is passed over, the feed is
  requested from the network, and the result is that of the network's document.
\<close>

theorem fetchFeed_cache_unknown_type_counterexample:
  "getCacheEntry (cached ''https://example.com/feed.rss'' ''<channel>old</channel>'') 1000
      ''https://example.com/feed.rss''
     = Some \<lparr> data = ''<channel>old</channel>'', cachedAt = 0, ttl = 3600000, entry_etag = None,
                    entry_lastModified = None \<rparr>
   \<and> rssParser_parseFromString (example_service None) ''<channel>old</channel>''
        ''https://example.com/feed.rss'' = Inr ''rss <channel>old</channel>''
   \<and> fetchFeed (example_service (Some (cached ''https://example.com/feed.rss'' ''<channel>old</channel>'')))
      (example_host (respond 200 ''<rss><channel>new</channel></rss>'') (Fails (Error ''offline''))
         (Fails (Error ''offline'')))
      ''https://example.com/feed.rss'' no_options
     = (Inr ''rss <rss><channel>new</channel></rss>'',
        [Tier1, SetCacheEntry ''https://example.com/feed.rss'' ''<rss><channel>new</channel></rss>''
                  3600000 None None])"
  by (simp add: fetchFeed_def getCachedFeed_def getCacheEntry_def parseFeed_def fetchFeedXML_def
      tier1_attempt_def retry3_def respond_def no_options_def example_service_def cached_def
      example_host_def detectFeedType_def toLowerCase_def trim_def isWhiteSpace_def Let_def)

section \<open>Properties of SettingsStore\<close>

subsection \<open>Object spread\<close>

lemma map_of_setProp: "map_of (setProp k v ps) = (map_of ps)(k \<mapsto> v)"
  by (induction ps) (auto simp: fun_eq_iff)

lemma map_of_spreadInto:
  "distinct (map fst ps) \<Longrightarrow> map_of (spreadInto acc ps) = map_of acc ++ map_of ps"
proof (induction ps arbitrary: acc)
  case Nil
  then show ?case by simp
next
  case (Cons p ps)
  have notin: "fst p \<notin> dom (map_of ps)"
    using Cons.prems by (simp add: dom_map_of_conv_image_fst)
  have "map_of (spreadInto acc (p # ps)) = (map_of acc)(fst p \<mapsto> snd p) ++ map_of ps"
    using Cons by (simp add: map_of_setProp)
  also have "\<dots> = map_of acc ++ map_of (p # ps)"
    using notin by (cases p) (auto simp: fun_eq_iff map_add_def split: option.splits)
  finally show ?case .
qed

lemma js_ordered_tail: "js_ordered (k # ks) \<Longrightarrow> js_ordered ks"
  by (cases ks) simp_all

lemma js_ordered_prefix: "js_ordered (xs @ ys) \<Longrightarrow> js_ordered xs"
proof (induction xs rule: js_ordered.induct)
  case (1 k k' ks)
  then show ?case by simp
qed simp_all

lemma js_ordered_suffix: "js_ordered (xs @ ys) \<Longrightarrow> js_ordered ys"
  by (induction xs) (auto dest: js_ordered_tail)

lemma later_key_not_before:
  "js_ordered (x # r) \<Longrightarrow> z \<in> set r \<Longrightarrow> \<not> precedes z x"
proof (induction r arbitrary: x)
  case Nil
  then show ?case by simp
next
  case (Cons y r)
  have step: "array_index y = None \<or> precedes x y" and tail: "js_ordered (y # r)"
    using Cons.prems(1) by simp_all
  show ?case
  proof (cases "z = y")
    case True
    then show ?thesis
      using step by (auto simp: precedes_def split: option.splits)
  next
    case False
    then have "\<not> precedes z y"
      using Cons.IH [OF tail] Cons.prems(2) by simp
    then show ?thesis
      using step by (auto simp: precedes_def split: option.splits)
  qed
qed

lemma setProp_new:
  "k \<notin> fst ` set acc \<Longrightarrow> js_ordered (map fst acc @ [k]) \<Longrightarrow> setProp k v acc = acc @ [(k, v)]"
proof (induction acc)
  case Nil
  then show ?case by simp
next
  case (Cons p acc)
  have "\<not> precedes k (fst p)"
    using later_key_not_before [of "fst p" "map fst acc @ [k]" k] Cons.prems(2) by simp
  moreover have "js_ordered (map fst acc @ [k])"
    using Cons.prems(2) js_ordered_tail [of "fst p" "map fst acc @ [k]"] by simp
  ultimately show ?case using Cons by auto
qed

lemma spreadInto_new:
  "distinct (map fst (acc @ ps)) \<Longrightarrow> js_ordered (map fst (acc @ ps))
    \<Longrightarrow> spreadInto acc ps = acc @ ps"
proof (induction ps arbitrary: acc)
  case Nil
  then show ?case by simp
next
  case (Cons p ps)
  have "js_ordered ((map fst acc @ [fst p]) @ map fst ps)"
    using Cons.prems(2) by simp
  then have "js_ordered (map fst acc @ [fst p])"
    by (rule js_ordered_prefix)
  moreover have "fst p \<notin> fst ` set acc"
    using Cons.prems(1) by auto
  ultimately have 1: "setProp (fst p) (snd p) acc = acc @ [p]"
    by (simp add: setProp_new)
  show ?case using Cons.IH [of "acc @ [p]"] Cons.prems 1 by simp
qed

lemma spreadInto_empty:
  "distinct (map fst ps) \<Longrightarrow> js_ordered (map fst ps) \<Longrightarrow> spreadInto [] ps = ps"
  using spreadInto_new [of "[]" ps] by simp

lemma spreadInto_Cons_other:
  "fst p \<notin> fst ` set xs \<Longrightarrow> \<forall>k \<in> fst ` set xs. \<not> precedes k (fst p)
    \<Longrightarrow> spreadInto (p # acc) xs = p # spreadInto acc xs"
  by (induction xs arbitrary: acc) auto

lemma spreadInto_same_keys:
  "map fst acc = map fst xs \<Longrightarrow> distinct (map fst xs) \<Longrightarrow> js_ordered (map fst xs)
    \<Longrightarrow> spreadInto acc xs = xs"
proof (induction xs arbitrary: acc)
  case Nil
  then show ?case by simp
next
  case (Cons x xs)
  then obtain a acc' where acc: "acc = a # acc'" "fst a = fst x" "map fst acc' = map fst xs"
    by (cases acc) auto
  have later: "\<forall>k \<in> fst ` set xs. \<not> precedes k (fst x)"
    using later_key_not_before [of "fst x" "map fst xs"] Cons.prems(3) by auto
  have "spreadInto acc (x # xs) = spreadInto (x # acc') xs"
    using acc by simp
  also have "\<dots> = x # spreadInto acc' xs"
    using Cons.prems(2) later by (simp add: spreadInto_Cons_other)
  finally show ?case
    using Cons.IH [of acc'] acc Cons.prems(2,3) js_ordered_tail [of "fst x" "map fst xs"] by simp
qed

lemma spreadInto_append: "spreadInto acc (xs @ ys) = spreadInto (spreadInto acc xs) ys"
  by (induction xs arbitrary: acc) simp_all

lemma spreadInto_keys_first:
  assumes "take (length acc) (map fst ps) = map fst acc" and "distinct (map fst ps)"
    and "js_ordered (map fst ps)"
  shows "spreadInto acc ps = ps"
proof -
  let ?xs = "take (length acc) ps" and ?ys = "drop (length acc) ps"
  have whole: "map fst (?xs @ ?ys) = map fst ps" by simp
  have d: "distinct (map fst (?xs @ ?ys))" and o: "js_ordered (map fst (?xs @ ?ys))"
    using assms(2,3) by (simp_all only: whole)
  have o1: "js_ordered (map fst ?xs)"
    using o js_ordered_prefix [of "map fst ?xs" "map fst ?ys"] by (simp only: map_append)
  have d1: "distinct (map fst ?xs)"
    using d by (simp only: map_append distinct_append)
  have k: "map fst acc = map fst ?xs"
    using assms(1) by (simp add: take_map)
  have 1: "spreadInto acc ?xs = ?xs"
    using k d1 o1 by (rule spreadInto_same_keys)
  have 2: "spreadInto ?xs ?ys = ?xs @ ?ys"
    using d o by (rule spreadInto_new)
  have "spreadInto acc (?xs @ ?ys) = ?xs @ ?ys"
    using 1 2 by (simp only: spreadInto_append)
  then show ?thesis by simp
qed

lemma setProp_same:
  "map_of ps k = Some v \<Longrightarrow> js_ordered (map fst ps) \<Longrightarrow> setProp k v ps = ps"
proof (induction ps)
  case Nil
  then show ?case by simp
next
  case (Cons p ps)
  show ?case
  proof (cases "fst p = k")
    case True
    then show ?thesis using Cons.prems(1) by (cases p) simp
  next
    case False
    then have in_tail: "map_of ps k = Some v"
      using Cons.prems(1) by (cases p) simp
    then have "k \<in> set (map fst ps)"
      by (metis map_of_SomeD fst_conv image_eqI set_map)
    then have "\<not> precedes k (fst p)"
      using later_key_not_before [of "fst p" "map fst ps" k] Cons.prems(2) by simp
    then show ?thesis
      using False in_tail Cons.IH Cons.prems(2) js_ordered_tail [of "fst p" "map fst ps"]
      by simp
  qed
qed

lemma typeof_string: "typeof v = T_string \<Longrightarrow> \<exists>s. v = Some (JStr s)"
  by (auto simp: typeof_def split: option.splits json.splits)

lemma typeof_number: "typeof v = T_number \<Longrightarrow> \<exists>n. v = Some (JNum n)"
  by (auto simp: typeof_def split: option.splits json.splits)

lemma typeof_boolean: "typeof v = T_boolean \<Longrightarrow> \<exists>b. v = Some (JBool b)"
  by (auto simp: typeof_def split: option.splits json.splits)

lemma settings_objectE:
  assumes "settings_object j"
  obtains ps qs where "j = JObj ps" "distinct (map fst ps)"
    "map_of ps ''defaultPlaybackSettings'' = Some (JObj qs)" "distinct (map fst qs)"
    "js_ordered (map fst ps)" "js_ordered (map fst qs)"
proof -
  obtain ps where 1: "j = JObj ps"
    using assms by (cases j) (simp_all add: settings_object_def)
  have 2: "distinct (map fst ps)" "js_ordered (map fst ps)"
    using assms 1 by (simp_all add: settings_object_def)
  obtain v where 3: "map_of ps ''defaultPlaybackSettings'' = Some v"
    using assms 1
    by (cases "map_of ps ''defaultPlaybackSettings''") (simp_all add: settings_object_def)
  obtain qs where 4: "v = JObj qs" "distinct (map fst qs)" "js_ordered (map fst qs)"
    using assms 1 3 by (cases v) (simp_all add: settings_object_def)
  show thesis using that 1 2 3 4 by simp
qed

lemma migratedSettings_objects:
  assumes "D = JObj psD" "distinct (map fst psD)"
    "map_of psD ''defaultPlaybackSettings'' = Some (JObj qsD)" "distinct (map fst qsD)"
    "js_ordered (map fst psD)" "js_ordered (map fst qsD)"
    "settings = JObj ps" "map_of ps ''defaultPlaybackSettings'' = Some (JObj qs)"
  shows "migratedSettings D settings =
           JObj (setProp ''defaultPlaybackSettings'' (JObj (spreadInto qsD qs)) (spreadInto psD ps))"
  using assms
  by (simp add: migratedSettings_def SettingsStore_getDefaultValue_def ownProps_def getProp_def
      spreadInto_empty)

lemma validate_fields:
  assumes "SettingsStore_validate (JObj ps)"
    and "map_of ps ''defaultPlaybackSettings'' = Some (JObj qs)"
  shows "typeof (map_of ps ''dataFolderPath'') = T_string"
    and "typeof (map_of qs ''volume'') = T_number"
    and "typeof (map_of qs ''playbackSpeed'') = T_number"
    and "typeof (map_of qs ''skipIntroSeconds'') = T_number"
    and "typeof (map_of ps ''autoDownload'') = T_boolean"
    and "typeof (map_of ps ''enableNotifications'') = T_boolean"
    and "typeof (map_of ps ''maxCacheEpisodes'') = T_number"
    and "\<not> negative (map_of ps ''maxCacheEpisodes'')"
    and "typeof (map_of ps ''feedUpdateInterval'') = T_number"
    and "\<not> negative (map_of ps ''feedUpdateInterval'')"
  using assms
  by (simp_all add: SettingsStore_validate_def getProp_def Let_def split: if_splits)

lemma validate_from_fields:
  assumes "map_of ps ''defaultPlaybackSettings'' = Some (JObj qs)"
    and "typeof (map_of ps ''dataFolderPath'') = T_string"
    and "typeof (map_of qs ''volume'') = T_number"
    and "typeof (map_of qs ''playbackSpeed'') = T_number"
    and "typeof (map_of qs ''skipIntroSeconds'') = T_number"
    and "typeof (map_of ps ''autoDownload'') = T_boolean"
    and "typeof (map_of ps ''enableNotifications'') = T_boolean"
    and "typeof (map_of ps ''maxCacheEpisodes'') = T_number"
    and "\<not> negative (map_of ps ''maxCacheEpisodes'')"
    and "typeof (map_of ps ''feedUpdateInterval'') = T_number"
    and "\<not> negative (map_of ps ''feedUpdateInterval'')"
  shows "SettingsStore_validate (JObj ps)"
  using assms
  by (simp add: SettingsStore_validate_def getProp_def Let_def falsy_def typeof_def)

lemma present_kept:
  "typeof (m k) \<noteq> T_undefined \<Longrightarrow> (d ++ m) k = m k"
  by (auto simp: typeof_def map_add_def split: option.splits)

lemma migratedSettings_valid:
  assumes "settings_object D" "settings_object settings" "SettingsStore_validate settings"
  shows "SettingsStore_validate (migratedSettings D settings)"
proof -
  obtain psD qsD where D: "D = JObj psD" "distinct (map fst psD)"
    "map_of psD ''defaultPlaybackSettings'' = Some (JObj qsD)" "distinct (map fst qsD)"
    "js_ordered (map fst psD)" "js_ordered (map fst qsD)"
    using assms(1) by (rule settings_objectE)
  obtain ps qs where S: "settings = JObj ps" "distinct (map fst ps)"
    "map_of ps ''defaultPlaybackSettings'' = Some (JObj qs)" "distinct (map fst qs)"
    "js_ordered (map fst ps)" "js_ordered (map fst qs)"
    using assms(2) by (rule settings_objectE)
  note f = validate_fields [OF assms(3) [unfolded S(1)] S(3)]
  let ?top = "setProp ''defaultPlaybackSettings'' (JObj (spreadInto qsD qs)) (spreadInto psD ps)"
  have m: "migratedSettings D settings = JObj ?top"
    using D S by (simp add: migratedSettings_objects)
  have top: "\<And>k. k \<noteq> ''defaultPlaybackSettings'' \<Longrightarrow> map_of ?top k = (map_of psD ++ map_of ps) k"
    using S(2) by (simp add: map_of_setProp map_of_spreadInto)
  have nested: "map_of (spreadInto qsD qs) = map_of qsD ++ map_of qs"
    using S(4) by (simp add: map_of_spreadInto)
  have "SettingsStore_validate (JObj ?top)"
  proof (rule validate_from_fields [where qs = "spreadInto qsD qs"])
    show "map_of ?top ''defaultPlaybackSettings'' = Some (JObj (spreadInto qsD qs))"
      by (simp add: map_of_setProp)
  qed (use f in \<open>simp_all add: top nested present_kept\<close>)
  then show ?thesis using m by simp
qed


lemma migratedSettings_unchanged:
  assumes "settings_object D" "settings_object settings" "default_fields_first D settings"
  shows "migratedSettings D settings = settings"
proof -
  obtain psD qsD where D: "D = JObj psD" "distinct (map fst psD)"
    "map_of psD ''defaultPlaybackSettings'' = Some (JObj qsD)" "distinct (map fst qsD)"
    "js_ordered (map fst psD)" "js_ordered (map fst qsD)"
    using assms(1) by (rule settings_objectE)
  obtain ps qs where S: "settings = JObj ps" "distinct (map fst ps)"
    "map_of ps ''defaultPlaybackSettings'' = Some (JObj qs)" "distinct (map fst qs)"
    "js_ordered (map fst ps)" "js_ordered (map fst qs)"
    using assms(2) by (rule settings_objectE)
  have first: "take (length psD) (map fst ps) = map fst psD"
    "take (length qsD) (map fst qs) = map fst qsD"
    using assms(3) D S by (simp_all add: default_fields_first_def object_keys_def ownProps_def getProp_def)
  have "spreadInto psD ps = ps" "spreadInto qsD qs = qs"
    using first S(2,4,5,6) by (simp_all add: spreadInto_keys_first)
  then show ?thesis
    using D S by (simp add: migratedSettings_objects setProp_same)
qed

text \<open>
  C9. For valid loaded settings (an object, as is the default), \<open>loadWithMigration\<close>
  returns the merge: every top-level field other than the playback settings is the
  loaded one where the loaded settings have it and the default one otherwise, and the
  playback settings are merged field by field in the same way. It calls the (debounced)
  \<open>save\<close> on the merge exactly when the JSON texts of the loaded settings and of the
  merge differ, and leaves the store untouched otherwise. When the loaded settings list
  every field of the defaults first and in the defaults' order, at both levels, the merge
  is the loaded value and nothing is saved.
\<close>

theorem loadWithMigration_merges:
  assumes "settings_object D" "settings_object settings" "SettingsStore_validate settings"
  shows "fst (loadWithMigration path parse D num_text settings s) = Inr (migratedSettings D settings)
       \<and> (\<forall>k. k \<noteq> ''defaultPlaybackSettings''
              \<longrightarrow> getProp (migratedSettings D settings) k
                    = (case getProp settings k of Some v \<Rightarrow> Some v | None \<Rightarrow> getProp D k))
       \<and> (\<exists>qs. getProp (migratedSettings D settings) ''defaultPlaybackSettings'' = Some (JObj qs)
              \<and> (\<forall>k. map_of qs k
                    = (case map_of (ownProps (getProp settings ''defaultPlaybackSettings'')) k of
                         Some v \<Rightarrow> Some v
                       | None \<Rightarrow> map_of (ownProps (getProp D ''defaultPlaybackSettings'')) k)))
       \<and> snd (loadWithMigration path parse D num_text settings s)
           = (if JSON_stringify num_text settings = JSON_stringify num_text (migratedSettings D settings)
              then s
              else s\<lparr> cache := Some (migratedSettings D settings), cacheTimestamp := clock s,
                      isDirty := True, saveDebounceTimer := Some (clock s + SAVE_DEBOUNCE_MS) \<rparr>)
       \<and> (default_fields_first D settings
            \<longrightarrow> migratedSettings D settings = settings
                \<and> snd (loadWithMigration path parse D num_text settings s) = s)"
proof -
  obtain psD qsD where D: "D = JObj psD" "distinct (map fst psD)"
    "map_of psD ''defaultPlaybackSettings'' = Some (JObj qsD)" "distinct (map fst qsD)"
    "js_ordered (map fst psD)" "js_ordered (map fst qsD)"
    using assms(1) by (rule settings_objectE)
  obtain ps qs where S: "settings = JObj ps" "distinct (map fst ps)"
    "map_of ps ''defaultPlaybackSettings'' = Some (JObj qs)" "distinct (map fst qs)"
    "js_ordered (map fst ps)" "js_ordered (map fst qs)"
    using assms(2) by (rule settings_objectE)
  let ?m = "migratedSettings D settings"
  let ?h = "SettingsStore path parse D"
  have m: "?m = JObj (setProp ''defaultPlaybackSettings'' (JObj (spreadInto qsD qs)) (spreadInto psD ps))"
    using D S by (simp add: migratedSettings_objects)
  have valid: "validate ?h ?m"
    using migratedSettings_valid [OF assms] by (simp add: SettingsStore_def)
  have sv: "save ?h ?m False s =
      (Returned, s\<lparr> cache := Some ?m, cacheTimestamp := clock s, isDirty := True,
                    saveDebounceTimer := Some (clock s + SAVE_DEBOUNCE_MS) \<rparr>)"
    using valid by (rule save_debounced)
  have 1: "fst (loadWithMigration path parse D num_text settings s) = Inr ?m"
    by (simp add: loadWithMigration_def Let_def sv)
  have m': "migratedSettings (JObj psD) (JObj ps)
      = JObj (setProp ''defaultPlaybackSettings'' (JObj (spreadInto qsD qs)) (spreadInto psD ps))"
    using m D(1) S(1) by simp
  have 2: "\<forall>k. k \<noteq> ''defaultPlaybackSettings''
              \<longrightarrow> getProp ?m k = (case getProp settings k of Some v \<Rightarrow> Some v | None \<Rightarrow> getProp D k)"
    using S(2)
    by (simp add: D(1) S(1) m' getProp_def map_of_setProp map_of_spreadInto map_add_def
        split: option.splits)
  have 3: "\<exists>qs'. getProp ?m ''defaultPlaybackSettings'' = Some (JObj qs')
              \<and> (\<forall>k. map_of qs' k
                    = (case map_of (ownProps (getProp settings ''defaultPlaybackSettings'')) k of
                         Some v \<Rightarrow> Some v
                       | None \<Rightarrow> map_of (ownProps (getProp D ''defaultPlaybackSettings'')) k))"
    using D(3) S(3,4)
    by (simp add: D(1) S(1) m' getProp_def ownProps_def map_of_setProp map_of_spreadInto
        map_add_def split: option.splits)
  have 4: "snd (loadWithMigration path parse D num_text settings s)
           = (if JSON_stringify num_text settings = JSON_stringify num_text ?m
              then s
              else s\<lparr> cache := Some ?m, cacheTimestamp := clock s,
                      isDirty := True, saveDebounceTimer := Some (clock s + SAVE_DEBOUNCE_MS) \<rparr>)"
    by (simp add: loadWithMigration_def Let_def sv)
  have 5: "default_fields_first D settings
            \<longrightarrow> ?m = settings \<and> snd (loadWithMigration path parse D num_text settings s) = s"
    using migratedSettings_unchanged [OF assms(1,2)] 4 by simp
  show ?thesis using 1 2 3 4 5 by blast
qed

lemma DEFAULT_SETTINGS_object: "settings_object DEFAULT_SETTINGS"
  by (simp add: settings_object_def DEFAULT_SETTINGS_def array_index_no_digit is_digit_def)

lemma partialSettings_object: "settings_object partialSettings"
  by (simp add: settings_object_def partialSettings_def array_index_no_digit is_digit_def)

lemma migratedSettings_partialSettings:
  "migratedSettings DEFAULT_SETTINGS partialSettings
     = JObj [(''dataFolderPath'', JStr ''custom/path''),
           (''defaultPlaybackSettings'',
              JObj [(''volume'', JNum 1), (''playbackSpeed'', JNum 1),
                    (''skipIntroSeconds'', JNum 0), (''skipOutroSeconds'', JNum 0)]),
           (''autoDownload'', JBool False),
           (''maxCacheEpisodes'', JNum 50),
           (''feedUpdateInterval'', JNum 60),
           (''enableNotifications'', JBool True)]"
  by (simp add: migratedSettings_def SettingsStore_getDefaultValue_def ownProps_def getProp_def
      DEFAULT_SETTINGS_def partialSettings_def precedes_no_digit is_digit_def)

lemma array_index_7: "array_index ''7'' = Some 7"
  by (simp add: array_index_def is_digit_def digits_value_def)

lemma indexedSettings_object: "settings_object indexedSettings"
  by (simp add: settings_object_def indexedSettings_def array_index_no_digit is_digit_def)

lemma indexedSettings_valid: "SettingsStore_validate indexedSettings"
  by (simp add: SettingsStore_validate_def indexedSettings_def getProp_def falsy_def
      typeof_def negative_def)

lemma migratedSettings_indexedSettings:
  "migratedSettings DEFAULT_SETTINGS indexedSettings = indexedSettings"
  by (simp add: migratedSettings_def SettingsStore_getDefaultValue_def ownProps_def getProp_def
      DEFAULT_SETTINGS_def indexedSettings_def precedes_no_digit is_digit_def)
     (simp add: precedes_def array_index_7 array_index_no_digit is_digit_def)

lemma DEFAULT_SETTINGS_fields_first: "default_fields_first DEFAULT_SETTINGS DEFAULT_SETTINGS"
  by (simp add: default_fields_first_def)

theorem loadWithMigration_merges_witness:
  "fst (loadWithMigration ''settings.json'' unparsable DEFAULT_SETTINGS show_int
          partialSettings (new_store 0))
     = Inr (JObj [(''dataFolderPath'', JStr ''custom/path''),
           (''defaultPlaybackSettings'',
              JObj [(''volume'', JNum 1), (''playbackSpeed'', JNum 1),
                    (''skipIntroSeconds'', JNum 0), (''skipOutroSeconds'', JNum 0)]),
           (''autoDownload'', JBool False),
           (''maxCacheEpisodes'', JNum 50),
           (''feedUpdateInterval'', JNum 60),
           (''enableNotifications'', JBool True)])
   \<and> snd (loadWithMigration ''settings.json'' unparsable DEFAULT_SETTINGS show_int
          DEFAULT_SETTINGS (new_store 0)) = new_store 0
   \<and> loadWithMigration ''settings.json'' unparsable DEFAULT_SETTINGS show_int
          indexedSettings (new_store 0) = (Inr indexedSettings, new_store 0)"
proof -
  have "loadWithMigration ''settings.json'' unparsable DEFAULT_SETTINGS show_int
          indexedSettings (new_store 0) = (Inr indexedSettings, new_store 0)"
    using loadWithMigration_merges [OF DEFAULT_SETTINGS_object indexedSettings_object
        indexedSettings_valid, of "''settings.json''" unparsable show_int "new_store 0"]
    by (simp add: migratedSettings_indexedSettings prod_eq_iff)
  moreover
  have "fst (loadWithMigration ''settings.json'' unparsable DEFAULT_SETTINGS show_int
          partialSettings (new_store 0))
        = Inr (migratedSettings DEFAULT_SETTINGS partialSettings)"
    using loadWithMigration_merges [OF DEFAULT_SETTINGS_object partialSettings_object
        partialSettings_valid, of "''settings.json''" unparsable show_int "new_store 0"]
    by blast
  moreover
  have "snd (loadWithMigration ''settings.json'' unparsable DEFAULT_SETTINGS show_int
          DEFAULT_SETTINGS (new_store 0)) = new_store 0"
    using loadWithMigration_merges [OF DEFAULT_SETTINGS_object DEFAULT_SETTINGS_object
        DEFAULT_SETTINGS_valid, of "''settings.json''" unparsable show_int "new_store 0"]
      DEFAULT_SETTINGS_fields_first
    by blast
  ultimately show ?thesis
    by (simp only: migratedSettings_partialSettings simp_thms)
qed

text \<open>
  Settings that have every field of the defaults, with the defaults' values, but list
  \<open>autoDownload\<close> first: the merge is in the defaults' order, the JSON texts differ, and
  the settings are saved and, a second later, written.
\<close>

theorem loadWithMigration_reordered_counterexample:
  "SettingsStore_validate reorderedSettings
   \<and> set (object_keys (Some reorderedSettings)) = set (object_keys (Some DEFAULT_SETTINGS))
   \<and> object_keys (getProp reorderedSettings ''defaultPlaybackSettings'')
       = object_keys (getProp DEFAULT_SETTINGS ''defaultPlaybackSettings'')
   \<and> isDirty (snd (loadWithMigration ''settings.json'' unparsable DEFAULT_SETTINGS show_int
          reorderedSettings (new_store 0)))
   \<and> diskWrites (elapse 1000 (snd (loadWithMigration ''settings.json'' unparsable
          DEFAULT_SETTINGS show_int reorderedSettings (new_store 0)))) = [DEFAULT_SETTINGS]"
proof -
  have v: "SettingsStore_validate reorderedSettings"
    by (simp add: SettingsStore_validate_def reorderedSettings_def getProp_def falsy_def
        typeof_def negative_def)
  have m: "migratedSettings DEFAULT_SETTINGS reorderedSettings = DEFAULT_SETTINGS"
    by (simp add: migratedSettings_def SettingsStore_getDefaultValue_def ownProps_def getProp_def
        DEFAULT_SETTINGS_def reorderedSettings_def precedes_no_digit is_digit_def)
  have d: "JSON_stringify show_int reorderedSettings \<noteq> JSON_stringify show_int DEFAULT_SETTINGS"
    by (simp add: reorderedSettings_def DEFAULT_SETTINGS_def quote_def escape_char_def)
  have l: "snd (loadWithMigration ''settings.json'' unparsable DEFAULT_SETTINGS show_int
          reorderedSettings (new_store 0))
        = (new_store 0)\<lparr> cache := Some DEFAULT_SETTINGS, cacheTimestamp := 0, isDirty := True,
             saveDebounceTimer := Some 1000 \<rparr>"
    using d DEFAULT_SETTINGS_valid
    by (simp add: loadWithMigration_def m SettingsStore_def save_debounced SAVE_DEBOUNCE_MS_def
        new_store_def)
  have k: "set (object_keys (Some reorderedSettings)) = set (object_keys (Some DEFAULT_SETTINGS))"
    by (auto simp: object_keys_def ownProps_def reorderedSettings_def DEFAULT_SETTINGS_def)
  have n: "object_keys (getProp reorderedSettings ''defaultPlaybackSettings'')
       = object_keys (getProp DEFAULT_SETTINGS ''defaultPlaybackSettings'')"
    by (simp add: object_keys_def ownProps_def getProp_def reorderedSettings_def
        DEFAULT_SETTINGS_def)
  have i: "isDirty (snd (loadWithMigration ''settings.json'' unparsable DEFAULT_SETTINGS
          show_int reorderedSettings (new_store 0)))"
    by (simp add: l)
  have w: "diskWrites (elapse 1000 (snd (loadWithMigration ''settings.json'' unparsable
          DEFAULT_SETTINGS show_int reorderedSettings (new_store 0)))) = [DEFAULT_SETTINGS]"
    unfolding l by (simp add: elapse_def timerCallback_def writeJson_def new_store_def)
  show ?thesis using v k n i w by blast
qed

end
